theory Spec2Isabelle
  imports Main "HOL-Library.Sublist"
begin

section \<open>Promises and the Command Runner (\<open>runCmd\<close>, server.js 578-604)\<close>

text \<open>
  A JavaScript promise is pending, resolved with a value, or rejected with an error
  (the text of \<open>String(err)\<close>). An \<open>await\<close> on a rejected promise throws.
\<close>

datatype 'a promise = Pending | Resolved 'a | Rejected string

text \<open>
  What a child process delivers to the listeners \<open>runCmd\<close> installs, in arrival order:
  chunks on stdout and stderr, the \<open>error\<close> event (spawn failure: executable missing,
  permission denied; the payload is \<open>String(err)\<close>) and the \<open>close\<close> event, whose exit
  code is \<open>null\<close> (\<open>None\<close>) when the child was ended by a signal.
\<close>

datatype proc_event =
    StdoutData string
  | StderrData string
  | ErrorEvent string
  | CloseEvent "int option"

record cmd_result =
  code :: int
  output_text :: string

text \<open>
  The environment handed to the child: \<open>{...process.env, OPENCLAW_STATE_DIR: STATE_DIR, ...}\<close>.
\<close>

definition child_env :: "(string \<rightharpoonup> string) \<Rightarrow> string \<Rightarrow> string \<Rightarrow> (string \<rightharpoonup> string)" where
  "child_env penv stateDir workspaceDir =
     penv(''OPENCLAW_STATE_DIR'' \<mapsto> stateDir,
          ''MOLTBOT_STATE_DIR'' \<mapsto> stateDir,
          ''CLAWDBOT_STATE_DIR'' \<mapsto> stateDir,
          ''OPENCLAW_WORKSPACE_DIR'' \<mapsto> workspaceDir,
          ''MOLTBOT_WORKSPACE_DIR'' \<mapsto> workspaceDir,
          ''CLAWDBOT_WORKSPACE_DIR'' \<mapsto> workspaceDir)"

text \<open>
  The listeners of \<open>runCmd\<close> run over the events of the child. \<open>out\<close> is the captured
  text so far. A promise settles once: the first \<open>error\<close> or \<open>close\<close> event decides, later
  calls of \<open>resolve\<close> have no effect. With no such event the promise stays pending.
\<close>

fun runCmd_events :: "string \<Rightarrow> proc_event list \<Rightarrow> cmd_result promise" where
  "runCmd_events out [] = Pending"
| "runCmd_events out (StdoutData d # evs) = runCmd_events (out @ d) evs"
| "runCmd_events out (StderrData d # evs) = runCmd_events (out @ d) evs"
| "runCmd_events out (ErrorEvent err # evs) =
     Resolved \<lparr>code = 127, output_text = out @ [CHR 0x0A] @ ''[spawn error] '' @ err @ [CHR 0x0A]\<rparr>"
| "runCmd_events out (CloseEvent c # evs) =
     Resolved \<lparr>code = (case c of None \<Rightarrow> 0 | Some n \<Rightarrow> n), output_text = out\<rparr>"

text \<open>
  \<open>os\<close> is the operating system: what \<open>childProcess.spawn\<close> does for a command, its
  arguments and its environment. It returns a child, which then delivers its events, or
  it throws at once (Node does so for the errors it does not report through the
  \<open>error\<close> event); a throw inside the executor of \<open>new Promise\<close> rejects the promise.
\<close>

datatype spawned_child = SpawnThrows string | Child "proc_event list"

type_synonym os_spawn = "string \<Rightarrow> string list \<Rightarrow> (string \<rightharpoonup> string) \<Rightarrow> spawned_child"

definition runCmd ::
  "os_spawn \<Rightarrow> (string \<rightharpoonup> string) \<Rightarrow> string \<Rightarrow> string \<Rightarrow> string \<Rightarrow> string list \<Rightarrow> cmd_result promise" where
  "runCmd os penv stateDir workspaceDir cmd args =
     (case os cmd args (child_env penv stateDir workspaceDir) of
        SpawnThrows err \<Rightarrow> Rejected err
      | Child evs \<Rightarrow> runCmd_events [] evs)"

text \<open>The text of a data event, empty for the others.\<close>

fun chunk :: "proc_event \<Rightarrow> string" where
  "chunk (StdoutData d) = d"
| "chunk (StderrData d) = d"
| "chunk (ErrorEvent err) = []"
| "chunk (CloseEvent c) = []"

fun is_data :: "proc_event \<Rightarrow> bool" where
  "is_data (StdoutData d) = True"
| "is_data (StderrData d) = True"
| "is_data (ErrorEvent err) = False"
| "is_data (CloseEvent c) = False"



section \<open>The file system\<close>

text \<open>
  A path is the list of its components below the root: \<open>/data/.openclaw\<close> is
  \<open>[''data'', ''.openclaw'']\<close>, and \<open>path.join(p, name)\<close> is \<open>p @ [name]\<close>. The file system
  maps the paths that exist to a directory or to a file with its content and mode.
\<close>

type_synonym path = "string list"

datatype node = Dir | File string nat

type_synonym filesystem = "path \<rightharpoonup> node"

text \<open>
  File-system calls throw for reasons the model does not hold (permissions, a full
  disk, a read-only volume). \<open>fault\<close> says, for each call site of the source, whether the
  call throws there for such a reason; a theorem for every \<open>fault\<close> covers every such run.
\<close>

datatype site =
    TokenRead | TokenMkdir | TokenWrite
  | StartMkdirState | StartMkdirWorkspace | StartSpawn
  | ImportMkdirStaging | ImportWriteTar | ImportMkdirExtract | ImportExtract | ImportReaddir
  | ImportRenameState | ImportRenameWorkspace | ImportMkdirStateParent
  | ImportMkdirWorkspaceParent | ImportCopyState | ImportRemoveState
  | ImportCopyWorkspace | ImportRemoveWorkspace | ImportCleanup

type_synonym faults = "site \<Rightarrow> bool"

fun is_file :: "node option \<Rightarrow> bool" where
  "is_file (Some (File c m)) = True"
| "is_file (Some Dir) = False"
| "is_file None = False"

definition existsSync :: "filesystem \<Rightarrow> path \<Rightarrow> bool" where
  "existsSync fs p = (fs p \<noteq> None)"


text \<open>
  \<open>fs.mkdirSync(p, { recursive: true })\<close>: creates \<open>p\<close> and the ancestors that are
  missing; throws when one of them is a file.
\<close>

definition mkdirSync :: "faults \<Rightarrow> site \<Rightarrow> filesystem \<Rightarrow> path \<Rightarrow> string + filesystem" where
  "mkdirSync fault s fs p =
     (if fault s then Inl ''EACCES''
      else if \<exists>q \<in> set (prefixes p). is_file (fs q) then Inl ''EEXIST''
      else Inr (\<lambda>q. if prefix q p \<and> fs q = None then Some Dir else fs q))"

text \<open>
  \<open>fs.writeFileSync(p, data, { mode })\<close>: replaces the content of an existing file and
  keeps its mode (the mode option is used only when the file is created); creates the
  file with the given mode when the parent directory exists.
\<close>

definition writeFileSync ::
  "faults \<Rightarrow> site \<Rightarrow> filesystem \<Rightarrow> path \<Rightarrow> string \<Rightarrow> nat \<Rightarrow> string + filesystem" where
  "writeFileSync fault s fs p data mode =
     (if fault s then Inl ''EACCES''
      else case fs p of
             Some Dir \<Rightarrow> Inl ''EISDIR''
           | Some (File c m) \<Rightarrow> Inr (fs(p \<mapsto> File data m))
           | None \<Rightarrow>
               (if p \<noteq> [] \<and> fs (butlast p) = Some Dir then Inr (fs(p \<mapsto> File data mode))
                else Inl ''ENOENT''))"

section \<open>The gateway token (\<open>resolveGatewayToken\<close>, server.js 61-84)\<close>






















section \<open>The readiness prober (\<open>waitForGatewayReady\<close>, server.js 150-165)\<close>

text \<open>
  What the network and the timers do at the \<open>i\<close>-th round of the loop: how long the
  \<open>fetch\<close> takes, whether it rejects (\<open>Inl\<close>, a connection failure) or resolves with a
  response of some HTTP status (\<open>Inr\<close>), and by how much the timer of \<open>sleep(250)\<close> fires
  late. Times are milliseconds of \<open>Date.now()\<close>.
\<close>

record probe =
  fetch_ms :: nat
  fetch_result :: "string + nat"
  sleep_lag :: nat

datatype probe_event = FetchAt int | SleepFor nat

text \<open>
  The loop. \<open>now\<close> is the clock at the loop test, \<open>i\<close> the number of rounds done. A
  response of any status is truthy, so \<open>if (res) return true\<close> always returns; a rejected
  \<open>fetch\<close> is caught and ignored. The result is the value returned and the calls made.
\<close>

function waitLoop :: "(nat \<Rightarrow> probe) \<Rightarrow> int \<Rightarrow> int \<Rightarrow> int \<Rightarrow> nat \<Rightarrow> bool \<times> probe_event list" where
  "waitLoop net timeoutMs start now i =
     (if now - start < timeoutMs
      then (case fetch_result (net i) of
              Inr status \<Rightarrow> (True, [FetchAt now])
            | Inl err \<Rightarrow>
                (let r = waitLoop net timeoutMs start
                           (now + int (fetch_ms (net i)) + 250 + int (sleep_lag (net i))) (Suc i)
                 in (fst r, FetchAt now # SleepFor 250 # snd r)))
      else (False, []))"
  by pat_completeness auto
termination
  by (relation "measure (\<lambda>(net, timeoutMs, start, now, i). nat (timeoutMs - (now - start)))") auto

declare waitLoop.simps [simp del]

text \<open>\<open>opts.timeoutMs ?? 20_000\<close>, and \<open>start = Date.now()\<close>.\<close>

definition timeoutMs_of :: "int option \<Rightarrow> int" where
  "timeoutMs_of opts_timeoutMs = (case opts_timeoutMs of None \<Rightarrow> 20000 | Some t \<Rightarrow> t)"

definition waitForGatewayReady :: "(nat \<Rightarrow> probe) \<Rightarrow> int option \<Rightarrow> int \<Rightarrow> bool \<times> probe_event list" where
  "waitForGatewayReady net opts_timeoutMs clock =
     waitLoop net (timeoutMs_of opts_timeoutMs) clock clock 0"

text \<open>The clock at the loop test of round \<open>i + k\<close>, when round \<open>i\<close> is tested at \<open>now\<close>.\<close>

fun poll_time :: "(nat \<Rightarrow> probe) \<Rightarrow> int \<Rightarrow> nat \<Rightarrow> nat \<Rightarrow> int" where
  "poll_time net now i 0 = now"
| "poll_time net now i (Suc k) =
     poll_time net (now + int (fetch_ms (net i)) + 250 + int (sleep_lag (net i))) (Suc i) k"


section \<open>The process supervisor (server.js 115-241)\<close>

text \<open>
  The settings fixed at start-up. \<open>CONFIG_PATH\<close> is the explicit path of the
  configuration file, when one of \<open>OPENCLAW_CONFIG_PATH\<close>, \<open>MOLTBOT_CONFIG_PATH\<close>,
  \<open>CLAWDBOT_CONFIG_PATH\<close> holds a non-blank value. \<open>INTERNAL_GATEWAY_PORT\<close> is the port
  as \<open>String\<close> prints it.
\<close>

record config =
  STATE_DIR :: path
  WORKSPACE_DIR :: path
  CONFIG_PATH :: "path option"
  GATEWAY_TOKEN :: string
  INTERNAL_GATEWAY_PORT :: string
  OPENCLAW_NODE :: string
  OPENCLAW_ENTRY :: string

definition configPath :: "config \<Rightarrow> filesystem \<Rightarrow> path" where
  "configPath cfg fs =
     (case CONFIG_PATH cfg of
        Some explicit \<Rightarrow> explicit
      | None \<Rightarrow>
          (if existsSync fs (STATE_DIR cfg @ [''openclaw.json'']) then STATE_DIR cfg @ [''openclaw.json'']
           else if existsSync fs (STATE_DIR cfg @ [''moltbot.json'']) then STATE_DIR cfg @ [''moltbot.json'']
           else if existsSync fs (STATE_DIR cfg @ [''clawdbot.json'']) then STATE_DIR cfg @ [''clawdbot.json'']
           else STATE_DIR cfg @ [''openclaw.json'']))"

definition isConfigured :: "config \<Rightarrow> filesystem \<Rightarrow> bool" where
  "isConfigured cfg fs = existsSync fs (configPath cfg fs)"

text \<open>
  The state of the wrapper process. \<open>gatewayProc\<close> and \<open>gatewayStarting\<close> are the two
  module variables: the handle of the child (a number naming it) and the promise of
  the start-up under way (a number naming the attempt). The other fields record what
  happened: the children spawned for the gateway, the attempts created and not yet
  settled (each with the error \<open>startGateway\<close> threw, if it did), how many attempts were
  created, and the children sent \<open>SIGTERM\<close>.
\<close>

record world =
  files :: filesystem
  gatewayProc :: "nat option"
  gatewayStarting :: "nat option"
  spawned :: "nat list"
  in_flight :: "(nat \<times> string option) list"
  attempts_created :: nat
  signals :: "nat list"

text \<open>
  \<open>startGateway\<close> has no \<open>await\<close>: it runs to its end when called. The result is the error
  it throws (its promise rejects), or none.
\<close>

definition startGateway :: "config \<Rightarrow> faults \<Rightarrow> world \<Rightarrow> string option \<times> world" where
  "startGateway cfg fault w =
     (if gatewayProc w \<noteq> None then (None, w)
      else if \<not> isConfigured cfg (files w)
      then (Some ''Error: Gateway cannot start: not configured'', w)
      else
        (case mkdirSync fault StartMkdirState (files w) (STATE_DIR cfg) of
           Inl e \<Rightarrow> (Some e, w)
         | Inr fs1 \<Rightarrow>
             (case mkdirSync fault StartMkdirWorkspace fs1 (WORKSPACE_DIR cfg) of
                Inl e \<Rightarrow> (Some e, w\<lparr>files := fs1\<rparr>)
              | Inr fs2 \<Rightarrow>
                  (if fault StartSpawn then (Some ''Error: spawn'', w\<lparr>files := fs2\<rparr>)
                   else (None, w\<lparr>files := fs2,
                                  gatewayProc := Some (length (spawned w)),
                                  spawned := spawned w @ [length (spawned w)]\<rparr>)))))"

text \<open>
  \<open>ensureGatewayRunning\<close> up to its \<open>await gatewayStarting\<close>: it returns a value, or it is
  suspended on an attempt. Creating the attempt calls the \<open>async\<close> arrow, which runs
  \<open>startGateway\<close> at once and then waits.
\<close>

datatype ensure_result = Ok_true | Ok_false string

datatype 'a awaited = Returned 'a | Awaiting nat

definition ensureGatewayRunning :: "config \<Rightarrow> faults \<Rightarrow> world \<Rightarrow> ensure_result awaited \<times> world" where
  "ensureGatewayRunning cfg fault w =
     (if \<not> isConfigured cfg (files w) then (Returned (Ok_false ''not configured''), w)
      else if gatewayProc w \<noteq> None then (Returned Ok_true, w)
      else
        (case gatewayStarting w of
           Some a \<Rightarrow> (Awaiting a, w)
         | None \<Rightarrow>
             (let started = startGateway cfg fault w;
                  w1 = snd started;
                  a = attempts_created w1
              in (Awaiting a,
                  w1\<lparr>gatewayStarting := Some a,
                     in_flight := in_flight w1 @ [(a, fst started)],
                     attempts_created := Suc a\<rparr>))))"

text \<open>
  The rest of \<open>ensureGatewayRunning\<close>, after the attempt it awaits has settled: \<open>{ ok: true }\<close>
  when the attempt is fulfilled; when it is rejected the \<open>await\<close> throws its error.
\<close>

definition ensure_resume :: "unit promise \<Rightarrow> ensure_result promise" where
  "ensure_resume p =
     (case p of Pending \<Rightarrow> Pending | Resolved u \<Rightarrow> Resolved Ok_true | Rejected e \<Rightarrow> Rejected e)"

text \<open>
  How an attempt settles: with the error of \<open>startGateway\<close>; otherwise by the result of
  \<open>waitForGatewayReady({ timeoutMs: 20_000 })\<close>. Its \<open>finally\<close> then clears \<open>gatewayStarting\<close>.
\<close>

definition attempt_result :: "string option \<Rightarrow> bool \<Rightarrow> unit promise" where
  "attempt_result err ready =
     (case err of
        Some e \<Rightarrow> Rejected e
      | None \<Rightarrow> if ready then Resolved () else Rejected ''Error: Gateway did not become ready in time'')"

definition settle_attempt :: "nat \<Rightarrow> (nat \<Rightarrow> probe) \<Rightarrow> int \<Rightarrow> world \<Rightarrow> unit promise \<times> world" where
  "settle_attempt a net clock w =
     (case map_of (in_flight w) a of
        None \<Rightarrow> (Pending, w)
      | Some err \<Rightarrow>
          (attempt_result err (fst (waitForGatewayReady net (Some 20000) clock)),
           w\<lparr>in_flight := filter (\<lambda>x. fst x \<noteq> a) (in_flight w), gatewayStarting := None\<rparr>))"

text \<open>The \<open>error\<close> and \<open>exit\<close> listeners of a spawned child: \<open>gatewayProc = null\<close>.\<close>

definition child_gone :: "nat \<Rightarrow> world \<Rightarrow> world" where
  "child_gone p w = (if p \<in> set (spawned w) then w\<lparr>gatewayProc := None\<rparr> else w)"

text \<open>
  \<open>restartGateway\<close>: with a handle it sends \<open>SIGTERM\<close> and sleeps 750 ms (\<open>None\<close>: it is
  suspended), then clears the handle and calls \<open>ensureGatewayRunning\<close>; without a handle
  it calls \<open>ensureGatewayRunning\<close> at once.
\<close>

definition restartGateway_begin ::
  "config \<Rightarrow> faults \<Rightarrow> world \<Rightarrow> ensure_result awaited option \<times> world" where
  "restartGateway_begin cfg fault w =
     (case gatewayProc w of
        Some p \<Rightarrow> (None, w\<lparr>signals := signals w @ [p]\<rparr>)
      | None \<Rightarrow> (Some (fst (ensureGatewayRunning cfg fault w)), snd (ensureGatewayRunning cfg fault w)))"

definition restartGateway_resume :: "config \<Rightarrow> faults \<Rightarrow> world \<Rightarrow> ensure_result awaited \<times> world" where
  "restartGateway_resume cfg fault w = ensureGatewayRunning cfg fault (w\<lparr>gatewayProc := None\<rparr>)"

text \<open>
  The event loop runs one piece of code to its next \<open>await\<close> at a time. An event is a
  call of \<open>ensureGatewayRunning\<close>, the \<open>exit\<close> or \<open>error\<close> of a child, the settling of an
  attempt (with the network and the clock its prober sees), the two halves of
  \<open>restartGateway\<close>, or a change of the file system by anything else.
\<close>

datatype event =
    CallEnsure
  | ChildExit nat
  | ChildError nat
  | AttemptSettles nat "nat \<Rightarrow> probe" int
  | RestartBegins
  | RestartResumes
  | FsChanges "filesystem \<Rightarrow> filesystem"

datatype observation =
    Call_obs "ensure_result awaited"
  | Attempt_obs "unit promise"
  | Sleeps
  | Silent

fun step :: "config \<Rightarrow> faults \<Rightarrow> world \<Rightarrow> event \<Rightarrow> observation \<times> world" where
  "step cfg fault w CallEnsure =
     (Call_obs (fst (ensureGatewayRunning cfg fault w)), snd (ensureGatewayRunning cfg fault w))"
| "step cfg fault w (ChildExit p) = (Silent, child_gone p w)"
| "step cfg fault w (ChildError p) = (Silent, child_gone p w)"
| "step cfg fault w (AttemptSettles a net clock) =
     (Attempt_obs (fst (settle_attempt a net clock w)), snd (settle_attempt a net clock w))"
| "step cfg fault w RestartBegins =
     (case fst (restartGateway_begin cfg fault w) of
        None \<Rightarrow> (Sleeps, snd (restartGateway_begin cfg fault w))
      | Some r \<Rightarrow> (Call_obs r, snd (restartGateway_begin cfg fault w)))"
| "step cfg fault w RestartResumes =
     (Call_obs (fst (restartGateway_resume cfg fault w)), snd (restartGateway_resume cfg fault w))"
| "step cfg fault w (FsChanges f) = (Silent, w\<lparr>files := f (files w)\<rparr>)"

fun run :: "config \<Rightarrow> faults \<Rightarrow> world \<Rightarrow> event list \<Rightarrow> observation list \<times> world" where
  "run cfg fault w [] = ([], w)"
| "run cfg fault w (ev # evs) =
     (fst (step cfg fault w ev) # fst (run cfg fault (snd (step cfg fault w ev)) evs),
      snd (run cfg fault (snd (step cfg fault w ev)) evs))"

text \<open>The events of callers and children only: no attempt settles, nothing restarts.\<close>

fun call_or_child :: "event \<Rightarrow> bool" where
  "call_or_child CallEnsure = True"
| "call_or_child (ChildExit p) = True"
| "call_or_child (ChildError p) = True"
| "call_or_child ev = False"

text \<open>
  The attempts in flight are the one \<open>gatewayStarting\<close> holds, or none.
\<close>

definition single_flight :: "world \<Rightarrow> bool" where
  "single_flight w =
     (map fst (in_flight w) = (case gatewayStarting w of None \<Rightarrow> [] | Some a \<Rightarrow> [a]))"

text \<open>
  The backend is absent: no handle and no start-up under way. The directories can be
  made and the child spawned: none of the three calls of \<open>startGateway\<close> throws.
\<close>

definition absent :: "world \<Rightarrow> bool" where
  "absent w = (gatewayProc w = None \<and> gatewayStarting w = None \<and> in_flight w = [])"

definition can_start :: "config \<Rightarrow> faults \<Rightarrow> filesystem \<Rightarrow> bool" where
  "can_start cfg fault fs =
     (\<not> fault StartMkdirState \<and> \<not> fault StartMkdirWorkspace \<and> \<not> fault StartSpawn \<and>
      (\<forall>q \<in> set (prefixes (STATE_DIR cfg)). \<not> is_file (fs q)) \<and>
      (\<forall>q \<in> set (prefixes (WORKSPACE_DIR cfg)). \<not> is_file (fs q)))"

text \<open>
  What a caller may see while the attempt \<open>a\<close> is under way: success at once, or the
  suspension on \<open>a\<close>.
\<close>

fun sees_attempt :: "nat \<Rightarrow> observation \<Rightarrow> bool" where
  "sees_attempt a (Call_obs (Returned r)) = (r = Ok_true)"
| "sees_attempt a (Call_obs (Awaiting b)) = (b = a)"
| "sees_attempt a Silent = True"
| "sees_attempt a obs = False"

section \<open>A deployment to evaluate on\<close>

text \<open>
  The deployment of the README: the state directory \<open>/data/.openclaw\<close>, the workspace
  \<open>/data/workspace\<close>, no explicit configuration path; a volume that holds a configuration
  file, and one that is empty; a wrapper that has just started.
\<close>

definition readme_cfg :: config where
  "readme_cfg =
     \<lparr>STATE_DIR = [''data'', ''.openclaw''], WORKSPACE_DIR = [''data'', ''workspace''],
      CONFIG_PATH = None, GATEWAY_TOKEN = ''ab05'', INTERNAL_GATEWAY_PORT = ''18789'',
      OPENCLAW_NODE = ''node'', OPENCLAW_ENTRY = ''/openclaw/dist/index.js''\<rparr>"

definition no_fault :: faults where
  "no_fault s = False"




definition configured_volume :: filesystem where
  "configured_volume =
     [[''data''] \<mapsto> Dir,
      [''data'', ''.openclaw''] \<mapsto> Dir,
      [''data'', ''.openclaw'', ''openclaw.json''] \<mapsto> File ''{}'' 420]"

definition fresh_world :: "filesystem \<Rightarrow> world" where
  "fresh_world fs =
     \<lparr>files = fs, gatewayProc = None, gatewayStarting = None, spawned = [], in_flight = [],
      attempts_created = 0, signals = []\<rparr>"

text \<open>A network on which nothing listens: every \<open>fetch\<close> fails after 30 s.\<close>

definition dead_net :: "nat \<Rightarrow> probe" where
  "dead_net i = \<lparr>fetch_ms = 30000, fetch_result = Inl ''TypeError: fetch failed'', sleep_lag = 0\<rparr>"

section \<open>More file-system calls\<close>

text \<open>
  \<open>fs.renameSync(src, dst)\<close> moves the whole tree at \<open>src\<close> to \<open>dst\<close>: afterwards
  \<open>dst @ q\<close> holds what \<open>src @ q\<close> held, and nothing is left at \<open>src\<close>. It throws when \<open>src\<close>
  is missing or \<open>dst\<close> lies inside \<open>src\<close>; its other errors (a non-empty directory at
  \<open>dst\<close>, another device) are among the faults.
\<close>

definition renameSync :: "faults \<Rightarrow> site \<Rightarrow> filesystem \<Rightarrow> path \<Rightarrow> path \<Rightarrow> string + filesystem" where
  "renameSync fault s fs src dst =
     (if fault s then Inl ''EXDEV''
      else if fs src = None then Inl ''ENOENT''
      else if prefix src dst then Inl ''EINVAL''
      else Inr (\<lambda>q. if prefix dst q then fs (src @ drop (length dst) q)
                    else if prefix src q then None
                    else fs q))"

text \<open>
  \<open>fs.cpSync(src, dst, { recursive: true })\<close> copies the tree at \<open>src\<close> over \<open>dst\<close>; what
  \<open>dst\<close> holds beside it stays.
\<close>

definition cpSync :: "faults \<Rightarrow> site \<Rightarrow> filesystem \<Rightarrow> path \<Rightarrow> path \<Rightarrow> string + filesystem" where
  "cpSync fault s fs src dst =
     (if fault s then Inl ''ENOSPC''
      else if fs src = None then Inl ''ENOENT''
      else if prefix src dst then Inl ''ERR_FS_CP_EINVAL''
      else Inr (\<lambda>q. if prefix dst q
                    then (case fs (src @ drop (length dst) q) of Some n \<Rightarrow> Some n | None \<Rightarrow> fs q)
                    else fs q))"

text \<open>\<open>fs.rmSync(p, { recursive: true, force: true })\<close> removes the tree at \<open>p\<close>, if any.\<close>

definition rmSync :: "faults \<Rightarrow> site \<Rightarrow> filesystem \<Rightarrow> path \<Rightarrow> string + filesystem" where
  "rmSync fault s fs p =
     (if fault s then Inl ''EACCES''
      else Inr (\<lambda>q. if prefix p q then None else fs q))"

section \<open>Extraction of an archive (\<open>tar.x\<close> with the filter of server.js 943-956)\<close>

text \<open>
  An archive is the list of its entries, each a path as written in the archive and a
  file or a directory. \<open>String.prototype.includes\<close> is the test for a substring.
\<close>

record tar_entry =
  entry_path :: string
  entry_node :: node

fun str_includes :: "string \<Rightarrow> string \<Rightarrow> bool" where
  "str_includes [] t = (t = [])"
| "str_includes (c # s) t = (prefix t (c # s) \<or> str_includes s t)"

text \<open>The \<open>filter\<close> option the import passes to \<open>tar.x\<close>.\<close>

definition import_filter :: "string \<Rightarrow> bool" where
  "import_filter entryPath = (\<not> str_includes entryPath ''..'')"

text \<open>
  The extractor is a library. It is modelled as one that trusts the paths it is given:
  it drops a leading \<open>/\<close> and empty and \<open>.\<close> components, lets a \<open>..\<close> component step to
  the parent directory, and writes each entry the filter accepts at the resulting place
  below \<open>cwd\<close>, making the directories on the way. So only the filter of the source
  stands between an entry with \<open>..\<close> and the file system.
\<close>

fun split_path :: "string \<Rightarrow> string list" where
  "split_path [] = [[]]"
| "split_path (c # cs) =
     (if c = CHR ''/'' then [] # split_path cs
      else (case split_path cs of [] \<Rightarrow> [[c]] | x # xs \<Rightarrow> (c # x) # xs))"

fun resolve :: "path \<Rightarrow> string list \<Rightarrow> path" where
  "resolve base [] = base"
| "resolve base (c # cs) =
     (if c = [] \<or> c = ''.'' then resolve base cs
      else if c = ''..'' then resolve (butlast base) cs
      else resolve (base @ [c]) cs)"

definition entry_target :: "path \<Rightarrow> string \<Rightarrow> path" where
  "entry_target cwd p = resolve cwd (split_path p)"

definition write_entry :: "filesystem \<Rightarrow> path \<Rightarrow> node \<Rightarrow> filesystem" where
  "write_entry fs target n =
     (\<lambda>q. if q = target then Some n
          else if prefix q target \<and> fs q = None then Some Dir
          else fs q)"

fun tar_x :: "path \<Rightarrow> (string \<Rightarrow> bool) \<Rightarrow> tar_entry list \<Rightarrow> filesystem \<Rightarrow> filesystem" where
  "tar_x cwd filt [] fs = fs"
| "tar_x cwd filt (e # es) fs =
     tar_x cwd filt es
       (if filt (entry_path e) then write_entry fs (entry_target cwd (entry_path e)) (entry_node e)
        else fs)"

section \<open>The import handler (\<open>POST /setup/import\<close>, server.js 917-1073)\<close>

text \<open>
  What the handler takes from outside: \<open>os.tmpdir()\<close>, the hex text of
  \<open>crypto.randomBytes(8)\<close>, the text of \<open>new Date().toISOString()\<close> at the backup step, how
  the tar library reads a buffer (\<open>None\<close>: not an archive), the operating system and the
  environment of \<open>runCmd\<close>, what a finished backend command has done to the files, and
  the network and the clock the prober of the restart sees.
\<close>

record import_env =
  tmpdir :: path
  random_hex :: string
  backup_iso :: string
  untar :: "string \<Rightarrow> tar_entry list option"
  os_of :: os_spawn
  penv_of :: "string \<rightharpoonup> string"
  cmd_effect :: "string list \<Rightarrow> filesystem \<Rightarrow> filesystem"
  net_of :: "nat \<Rightarrow> probe"
  clock_of :: int

record response =
  resp_status :: nat
  resp_ok :: bool
  resp_text :: string

text \<open>
  A piece of the handler runs on the state of the wrapper and goes on, throws, or never
  comes back (an \<open>await\<close> on a promise that never settles). A sequence stops at the first
  piece that does not go on.
\<close>

datatype outcome = Continue | Throws string | Hangs

type_synonym action = "world \<Rightarrow> outcome \<times> world"

fun seq :: "action list \<Rightarrow> action" where
  "seq [] w = (Continue, w)"
| "seq (a # as) w =
     (case fst (a w) of
        Continue \<Rightarrow> seq as (snd (a w))
      | Throws e \<Rightarrow> (Throws e, snd (a w))
      | Hangs \<Rightarrow> (Hangs, snd (a w)))"

definition fs_do :: "(filesystem \<Rightarrow> string + filesystem) \<Rightarrow> action" where
  "fs_do f w = (case f (files w) of Inl e \<Rightarrow> (Throws e, w) | Inr fs' \<Rightarrow> (Continue, w\<lparr>files := fs'\<rparr>))"

definition when_do :: "(world \<Rightarrow> bool) \<Rightarrow> action \<Rightarrow> action" where
  "when_do c a w = (if c w then a w else (Continue, w))"

definition staging_dir :: "import_env \<Rightarrow> path" where
  "staging_dir env = tmpdir env @ [''openclaw-import-'' @ random_hex env]"

definition tar_path :: "import_env \<Rightarrow> path" where
  "tar_path env = staging_dir env @ [''backup.tar.gz'']"

definition extract_dir :: "import_env \<Rightarrow> path" where
  "extract_dir env = staging_dir env @ [''extracted'']"

text \<open>\<open>tar.x({ file: tarPath, cwd: extractDir, filter })\<close>.\<close>

definition extract_archive :: "faults \<Rightarrow> import_env \<Rightarrow> filesystem \<Rightarrow> string + filesystem" where
  "extract_archive fault env fs =
     (if fault ImportExtract then Inl ''EIO''
      else case fs (tar_path env) of
             Some (File buffer m) \<Rightarrow>
               (case untar env buffer of
                  None \<Rightarrow> Inl ''TAR_BAD_ARCHIVE''
                | Some entries \<Rightarrow> Inr (tar_x (extract_dir env) import_filter entries fs))
           | Some Dir \<Rightarrow> Inl ''EISDIR''
           | None \<Rightarrow> Inl ''ENOENT'')"

text \<open>The inner \<open>try\<close> up to \<open>tar.x\<close>. The default mode of \<open>writeFileSync\<close>, \<open>0o666\<close>, is 438.\<close>

definition stage_upload :: "faults \<Rightarrow> import_env \<Rightarrow> string \<Rightarrow> action" where
  "stage_upload fault env buffer =
     seq [fs_do (\<lambda>fs. writeFileSync fault ImportWriteTar fs (tar_path env) buffer 438),
          fs_do (\<lambda>fs. mkdirSync fault ImportMkdirExtract fs (extract_dir env)),
          fs_do (extract_archive fault env)]"

text \<open>\<open>fs.readdirSync(extractDir).includes(name)\<close>.\<close>

definition extracted_has :: "import_env \<Rightarrow> filesystem \<Rightarrow> string \<Rightarrow> bool" where
  "extracted_has env fs name = existsSync fs (extract_dir env @ [name])"

definition has_state_marker :: "import_env \<Rightarrow> filesystem \<Rightarrow> bool" where
  "has_state_marker env fs =
     (extracted_has env fs ''.openclaw'' \<or> extracted_has env fs ''.clawdbot'' \<or>
      extracted_has env fs ''.moltbot'')"

text \<open>
  \<open>new Date().toISOString().replace(/[:.]/g, "-")\<close>, and the template
  \<open>`${dir}.bak-${backupTimestamp}`\<close>: the suffix goes on the last component.
\<close>

definition backupTimestamp :: "import_env \<Rightarrow> string" where
  "backupTimestamp env = map (\<lambda>c. if c = CHR '':'' \<or> c = CHR ''.'' then CHR ''-'' else c) (backup_iso env)"

definition backup_of :: "path \<Rightarrow> string \<Rightarrow> path" where
  "backup_of dir stamp =
     (if dir = [] then [''.bak-'' @ stamp] else butlast dir @ [last dir @ ''.bak-'' @ stamp])"

definition stateBackupPath :: "config \<Rightarrow> import_env \<Rightarrow> path" where
  "stateBackupPath cfg env = backup_of (STATE_DIR cfg) (backupTimestamp env)"

definition workspaceBackupPath :: "config \<Rightarrow> import_env \<Rightarrow> path" where
  "workspaceBackupPath cfg env = backup_of (WORKSPACE_DIR cfg) (backupTimestamp env)"

text \<open>Stopping the gateway before the restore: \<open>SIGTERM\<close>, 750 ms, \<open>gatewayProc = null\<close>.\<close>

definition stop_gateway :: action where
  "stop_gateway w =
     (Continue,
      case gatewayProc w of
        Some p \<Rightarrow> w\<lparr>signals := signals w @ [p], gatewayProc := None\<rparr>
      | None \<Rightarrow> w)"

text \<open>A path as the string the source holds.\<close>

definition render :: "path \<Rightarrow> string" where
  "render p = concat (map (\<lambda>c. CHR ''/'' # c) p)"

text \<open>\<open>await runCmd(OPENCLAW_NODE, openclawArgs(args))\<close>; the result is not looked at.\<close>

definition backend_cmd :: "config \<Rightarrow> import_env \<Rightarrow> string list \<Rightarrow> action" where
  "backend_cmd cfg env args w =
     (case runCmd (os_of env) (penv_of env) (render (STATE_DIR cfg)) (render (WORKSPACE_DIR cfg))
             (OPENCLAW_NODE cfg) (OPENCLAW_ENTRY cfg # args) of
        Pending \<Rightarrow> (Hangs, w)
      | Rejected e \<Rightarrow> (Throws e, w)
      | Resolved r \<Rightarrow> (Continue, w\<lparr>files := cmd_effect env args (files w)\<rparr>))"

text \<open>
  \<open>await restartGateway()\<close> with nothing else running in between: both halves of
  \<open>restartGateway\<close>, then the attempt it is suspended on settles.
\<close>

definition restart_now :: "config \<Rightarrow> faults \<Rightarrow> import_env \<Rightarrow> action" where
  "restart_now cfg fault env w =
     (let began = restartGateway_begin cfg fault w;
          called = (case fst began of
                      None \<Rightarrow> restartGateway_resume cfg fault (snd began)
                    | Some r \<Rightarrow> (r, snd began))
      in case fst called of
           Returned v \<Rightarrow> (Continue, snd called)
         | Awaiting a \<Rightarrow>
             (case fst (settle_attempt a (net_of env) (clock_of env) (snd called)) of
                Pending \<Rightarrow> (Hangs, snd (settle_attempt a (net_of env) (clock_of env) (snd called)))
              | Rejected e \<Rightarrow> (Throws e, snd (settle_attempt a (net_of env) (clock_of env) (snd called)))
              | Resolved u \<Rightarrow> (Continue, snd (settle_attempt a (net_of env) (clock_of env) (snd called)))))"

text \<open>\<open>moveDir(src, dest)\<close>: copy, then remove the source.\<close>

definition moveDir :: "faults \<Rightarrow> site \<Rightarrow> site \<Rightarrow> path \<Rightarrow> path \<Rightarrow> action" where
  "moveDir fault s_copy s_remove src dest =
     seq [fs_do (\<lambda>fs. cpSync fault s_copy fs src dest),
          fs_do (\<lambda>fs. rmSync fault s_remove fs src)]"

definition sourceStateDir :: "import_env \<Rightarrow> bool \<Rightarrow> bool \<Rightarrow> path" where
  "sourceStateDir env hasOpenclaw hasClawdbot =
     (if hasOpenclaw then extract_dir env @ [''.openclaw'']
      else if hasClawdbot then extract_dir env @ [''.clawdbot'']
      else extract_dir env @ [''.moltbot''])"

text \<open>The handler from \<open>Stop gateway before restore\<close> to \<open>await restartGateway()\<close>.\<close>

definition restore_steps ::
  "config \<Rightarrow> faults \<Rightarrow> import_env \<Rightarrow> bool \<Rightarrow> bool \<Rightarrow> bool \<Rightarrow> action list" where
  "restore_steps cfg fault env hasOpenclaw hasClawdbot hasWorkspace =
     [stop_gateway,
      when_do (\<lambda>w. existsSync (files w) (STATE_DIR cfg))
        (fs_do (\<lambda>fs. renameSync fault ImportRenameState fs (STATE_DIR cfg) (stateBackupPath cfg env))),
      when_do (\<lambda>w. existsSync (files w) (WORKSPACE_DIR cfg) \<and>
                   WORKSPACE_DIR cfg \<noteq> STATE_DIR cfg @ [''workspace''])
        (fs_do (\<lambda>fs. renameSync fault ImportRenameWorkspace fs (WORKSPACE_DIR cfg)
                        (workspaceBackupPath cfg env))),
      fs_do (\<lambda>fs. mkdirSync fault ImportMkdirStateParent fs (butlast (STATE_DIR cfg))),
      fs_do (\<lambda>fs. mkdirSync fault ImportMkdirWorkspaceParent fs (butlast (WORKSPACE_DIR cfg))),
      moveDir fault ImportCopyState ImportRemoveState
        (sourceStateDir env hasOpenclaw hasClawdbot) (STATE_DIR cfg),
      when_do (\<lambda>w. hasWorkspace \<and> WORKSPACE_DIR cfg \<noteq> STATE_DIR cfg @ [''workspace''])
        (moveDir fault ImportCopyWorkspace ImportRemoveWorkspace
           (extract_dir env @ [''workspace'']) (WORKSPACE_DIR cfg)),
      backend_cmd cfg env [''config'', ''set'', ''gateway.auth.mode'', ''token''],
      backend_cmd cfg env [''config'', ''set'', ''gateway.auth.token'', GATEWAY_TOKEN cfg],
      backend_cmd cfg env [''config'', ''set'', ''gateway.bind'', ''loopback''],
      backend_cmd cfg env [''config'', ''set'', ''gateway.port'', INTERNAL_GATEWAY_PORT cfg],
      backend_cmd cfg env [''config'', ''set'', ''gateway.controlUi.basePath'', ''/openclaw''],
      restart_now cfg fault env]"

text \<open>
  The restore, with \<open>hasOpenclaw\<close>, \<open>hasClawdbot\<close> and \<open>hasWorkspace\<close> as the listing of the
  extraction directory gives them.
\<close>

definition restore :: "config \<Rightarrow> faults \<Rightarrow> import_env \<Rightarrow> action" where
  "restore cfg fault env w =
     seq (restore_steps cfg fault env
            (extracted_has env (files w) ''.openclaw'')
            (extracted_has env (files w) ''.clawdbot'')
            (extracted_has env (files w) ''workspace'')) w"

definition invalid_backup :: response where
  "invalid_backup =
     \<lparr>resp_status = 400, resp_ok = False,
      resp_text = ''Invalid backup: missing .openclaw, .clawdbot, or .moltbot directory. Archive should contain state directory.''\<rparr>"

definition import_failed :: "string \<Rightarrow> response" where
  "import_failed e = \<lparr>resp_status = 500, resp_ok = False, resp_text = ''Import failed: '' @ e\<rparr>"

definition import_done :: response where
  "import_done =
     \<lparr>resp_status = 200, resp_ok = True,
      resp_text = ''Backup imported successfully. Gateway restarted.''\<rparr>"

text \<open>
  The inner \<open>try\<close> block: what it returns (\<open>Inr\<close>) or throws (\<open>Inl\<close>), or \<open>None\<close> when it
  never comes back.
\<close>

definition import_body ::
  "config \<Rightarrow> faults \<Rightarrow> import_env \<Rightarrow> string \<Rightarrow> world \<Rightarrow> (string + response) option \<times> world" where
  "import_body cfg fault env buffer w =
     (let staged = stage_upload fault env buffer w;
          w1 = snd staged
      in case fst staged of
           Hangs \<Rightarrow> (None, w1)
         | Throws e \<Rightarrow> (Some (Inl e), w1)
         | Continue \<Rightarrow>
             (if fault ImportReaddir then (Some (Inl ''EACCES''), w1)
              else if \<not> has_state_marker env (files w1) then (Some (Inr invalid_backup), w1)
              else
                (case fst (restore cfg fault env w1) of
                   Hangs \<Rightarrow> (None, snd (restore cfg fault env w1))
                 | Throws e \<Rightarrow> (Some (Inl e), snd (restore cfg fault env w1))
                 | Continue \<Rightarrow> (Some (Inr import_done), snd (restore cfg fault env w1)))))"

text \<open>The \<open>finally\<close> block: remove the staging directory, ignoring a failure.\<close>

definition cleanup :: "faults \<Rightarrow> import_env \<Rightarrow> world \<Rightarrow> world" where
  "cleanup fault env w =
     (case rmSync fault ImportCleanup (files w) (staging_dir env) of
        Inl e \<Rightarrow> w
      | Inr fs' \<Rightarrow> w\<lparr>files := fs'\<rparr>)"

text \<open>
  The handler. \<open>upload\<close> is \<open>req.file\<close>: the buffer of the uploaded file, if there is one. The
  result is the response sent, or \<open>None\<close> when the handler never answers.
\<close>

definition import_handler ::
  "config \<Rightarrow> faults \<Rightarrow> import_env \<Rightarrow> string option \<Rightarrow> world \<Rightarrow> response option \<times> world" where
  "import_handler cfg fault env upload w =
     (case upload of
        None \<Rightarrow> (Some \<lparr>resp_status = 400, resp_ok = False, resp_text = ''No file uploaded''\<rparr>, w)
      | Some buffer \<Rightarrow>
          (case mkdirSync fault ImportMkdirStaging (files w) (staging_dir env) of
             Inl e \<Rightarrow> (Some (import_failed e), w)
           | Inr fs1 \<Rightarrow>
               (let body = import_body cfg fault env buffer (w\<lparr>files := fs1\<rparr>)
                in case fst body of
                     None \<Rightarrow> (None, snd body)
                   | Some (Inl e) \<Rightarrow> (Some (import_failed e), cleanup fault env (snd body))
                   | Some (Inr resp) \<Rightarrow> (Some resp, cleanup fault env (snd body)))))"

text \<open>
  Two directories are apart when neither lies in the other. The content of the tree at
  \<open>dir\<close> is the same in two file systems.
\<close>

definition apart :: "path \<Rightarrow> path \<Rightarrow> bool" where
  "apart a b = (\<not> prefix a b \<and> \<not> prefix b a)"

definition same_tree :: "path \<Rightarrow> filesystem \<Rightarrow> filesystem \<Rightarrow> bool" where
  "same_tree dir fs fs' = (\<forall>q. prefix dir q \<longrightarrow> fs' q = fs q)"

section \<open>Archives to evaluate on\<close>

text \<open>
  An archive that tries to leave the extraction directory, one without a state
  directory, and a backup as the export makes it; an environment that reads them from
  the buffers \<open>evil\<close>, \<open>notes\<close> and \<open>good\<close>, in which backend commands end with code 0
  and change nothing, and the gateway answers its first probe.
\<close>

definition traversal_archive :: "tar_entry list" where
  "traversal_archive =
     [\<lparr>entry_path = ''../../etc/passwd'', entry_node = File ''root::0:0:'' 420\<rparr>,
      \<lparr>entry_path = ''.openclaw/openclaw.json'', entry_node = File ''{}'' 420\<rparr>]"

definition notes_archive :: "tar_entry list" where
  "notes_archive = [\<lparr>entry_path = ''notes/todo.txt'', entry_node = File ''buy milk'' 420\<rparr>]"

definition good_archive :: "tar_entry list" where
  "good_archive =
     [\<lparr>entry_path = ''.openclaw/openclaw.json'', entry_node = File ''{new}'' 420\<rparr>,
      \<lparr>entry_path = ''workspace/a.txt'', entry_node = File ''a'' 420\<rparr>]"

definition live_net :: "nat \<Rightarrow> probe" where
  "live_net i = \<lparr>fetch_ms = 5, fetch_result = Inr 200, sleep_lag = 0\<rparr>"

definition readme_env :: import_env where
  "readme_env =
     \<lparr>tmpdir = [''tmp''],
      random_hex = ''00c0ffee'',
      backup_iso = ''2026-01-02T03:04:05.678Z'',
      untar = (\<lambda>buffer. if buffer = ''evil'' then Some traversal_archive
                        else if buffer = ''notes'' then Some notes_archive
                        else if buffer = ''good'' then Some good_archive
                        else None),
      os_of = (\<lambda>cmd args env. Child [CloseEvent (Some 0)]),
      penv_of = Map.empty,
      cmd_effect = (\<lambda>args fs. fs),
      net_of = live_net,
      clock_of = 0\<rparr>"

definition staged_volume :: filesystem where
  "staged_volume =
     [[] \<mapsto> Dir,
      [''tmp''] \<mapsto> Dir,
      [''tmp'', ''openclaw-import-00c0ffee''] \<mapsto> Dir,
      [''tmp'', ''openclaw-import-00c0ffee'', ''extracted''] \<mapsto> Dir]"

text \<open>
  An action keeps the tree at \<open>dir\<close>; an action changes nothing but files. The file
  system at the moment the handler lists the extraction directory, when it gets there.
\<close>

definition keeps_tree :: "path \<Rightarrow> action \<Rightarrow> bool" where
  "keeps_tree dir a = (\<forall>w. same_tree dir (files w) (files (snd (a w))))"

definition only_files :: "action \<Rightarrow> bool" where
  "only_files a = (\<forall>w. (snd (a w))\<lparr>files := files w\<rparr> = w)"

definition extracted_files :: "faults \<Rightarrow> import_env \<Rightarrow> string \<Rightarrow> world \<Rightarrow> filesystem option" where
  "extracted_files fault env buffer w =
     (case mkdirSync fault ImportMkdirStaging (files w) (staging_dir env) of
        Inl e \<Rightarrow> None
      | Inr fs1 \<Rightarrow>
          (case fst (stage_upload fault env buffer (w\<lparr>files := fs1\<rparr>)) of
             Continue \<Rightarrow> Some (files (snd (stage_upload fault env buffer (w\<lparr>files := fs1\<rparr>))))
           | Throws e \<Rightarrow> None
           | Hangs \<Rightarrow> None))"

text \<open>The wrapper with its gateway running on the configured volume.\<close>

definition running_world :: world where
  "running_world = (fresh_world configured_volume)\<lparr>gatewayProc := Some 0, spawned := [0]\<rparr>"








section \<open>Properties of the Command Runner\<close>

lemma runCmd_events_data:
  "list_all is_data pre \<Longrightarrow>
   runCmd_events out (pre @ evs) = runCmd_events (out @ concat (map chunk pre)) evs"
proof (induction pre arbitrary: out)
  case Nil
  show ?case by simp
next
  case (Cons e pre)
  then show ?case by (cases e) simp_all
qed







text \<open>
  Claim C10. When the first settling event of the child is a \<open>close\<close> event with a
  \<open>null\<close> exit code (the child was ended by a signal), \<open>runCmd\<close> resolves with exit
  code 0 (\<open>code ?? 0\<close>): the caller sees success.
\<close>

theorem runCmd_null_code_is_zero:
  "os cmd args (child_env penv sd wd) = Child (pre @ CloseEvent None # post) \<Longrightarrow>
   list_all is_data pre \<Longrightarrow>
   runCmd os penv sd wd cmd args = Resolved \<lparr>code = 0, output_text = concat (map chunk pre)\<rparr>"
  by (simp add: runCmd_def runCmd_events_data)

theorem runCmd_null_code_is_zero_witness:
  "runCmd (\<lambda>c a e. Child [StderrData ''Terminated'', CloseEvent None])
      Map.empty ''/data/.openclaw'' ''/data/workspace'' ''node'' [''config'', ''set'']
     = Resolved \<lparr>code = 0, output_text = ''Terminated''\<rparr>"
  using runCmd_null_code_is_zero [of "\<lambda>c a e. Child [StderrData ''Terminated'', CloseEvent None]"
      "''node''" "[''config'', ''set'']" Map.empty "''/data/.openclaw''" "''/data/workspace''"
      "[StderrData ''Terminated'']" "[]"]
  by simp

section \<open>Properties of the gateway token\<close>























section \<open>Properties of the readiness prober\<close>


lemma poll_time_add: "poll_time net now i (j + k) = poll_time net (poll_time net now i j) (i + j) k"
  by (induction j arbitrary: now i) simp_all


lemma poll_time_Suc: "poll_time net now i (Suc k) =
    poll_time net now i k + int (fetch_ms (net (i + k))) + 250 + int (sleep_lag (net (i + k)))"
  using poll_time_add [of net now i k 1] by simp





section \<open>Properties of the process supervisor\<close>

lemma mkdirSync_grows:
  "mkdirSync fault s fs p = Inr fs' \<Longrightarrow> existsSync fs q \<Longrightarrow> existsSync fs' q"
  by (auto simp: mkdirSync_def existsSync_def split: if_splits)

lemma isConfigured_mono:
  assumes "\<And>p. existsSync fs p \<Longrightarrow> existsSync fs' p" and "isConfigured cfg fs"
  shows "isConfigured cfg fs'"
  using assms by (auto simp: isConfigured_def configPath_def split: option.splits if_splits)

text \<open>
  Claim C8. While \<open>isConfigured()\<close> is false, \<open>ensureGatewayRunning\<close> returns the failure
  \<open>{ ok: false, reason: "not configured" }\<close> and leaves the state of the wrapper as it
  was: no child is spawned, no attempt is created. \<open>startGateway\<close> itself, called without
  a handle, throws and changes nothing.
\<close>

theorem ensure_not_configured:
  "\<not> isConfigured cfg (files w) \<Longrightarrow>
   ensureGatewayRunning cfg fault w = (Returned (Ok_false ''not configured''), w) \<and>
   (gatewayProc w = None \<longrightarrow>
      startGateway cfg fault w = (Some ''Error: Gateway cannot start: not configured'', w))"
  by (simp add: ensureGatewayRunning_def startGateway_def)

theorem ensure_not_configured_witness:
  "ensureGatewayRunning readme_cfg no_fault (fresh_world Map.empty)
    = (Returned (Ok_false ''not configured''), fresh_world Map.empty)"
proof -
  have "\<not> isConfigured readme_cfg (files (fresh_world Map.empty))"
    by (simp add: isConfigured_def configPath_def existsSync_def readme_cfg_def fresh_world_def)
  then show ?thesis
    by (rule ensure_not_configured [THEN conjunct1])
qed

text \<open>startGateway touches only the files, the handle and the list of children.\<close>

lemma startGateway_frame:
  "gatewayStarting (snd (startGateway cfg fault w)) = gatewayStarting w \<and>
   in_flight (snd (startGateway cfg fault w)) = in_flight w \<and>
   attempts_created (snd (startGateway cfg fault w)) = attempts_created w \<and>
   signals (snd (startGateway cfg fault w)) = signals w"
  by (simp add: startGateway_def split: sum.splits)

lemma startGateway_spawns:
  "spawned (snd (startGateway cfg fault w)) = spawned w \<or>
   spawned (snd (startGateway cfg fault w)) = spawned w @ [length (spawned w)]"
  by (simp add: startGateway_def split: sum.splits)

lemma ensure_single_flight:
  "single_flight w \<Longrightarrow> single_flight (snd (ensureGatewayRunning cfg fault w))"
  by (auto simp: single_flight_def ensureGatewayRunning_def Let_def startGateway_frame split: option.splits)

lemma settle_single_flight:
  "single_flight w \<Longrightarrow> single_flight (snd (settle_attempt a net clock w))"
  by (auto simp: single_flight_def settle_attempt_def split: option.splits dest: map_of_SomeD)

lemma step_single_flight:
  "single_flight w \<Longrightarrow> single_flight (snd (step cfg fault w ev))"
proof (cases ev)
  case CallEnsure
  assume "single_flight w"
  with CallEnsure show ?thesis by (simp add: ensure_single_flight)
next
  case (ChildExit p)
  assume "single_flight w"
  with ChildExit show ?thesis by (simp add: single_flight_def child_gone_def)
next
  case (ChildError p)
  assume "single_flight w"
  with ChildError show ?thesis by (simp add: single_flight_def child_gone_def)
next
  case (AttemptSettles a net clock)
  assume "single_flight w"
  with AttemptSettles show ?thesis by (simp add: settle_single_flight)
next
  case RestartBegins
  assume sf: "single_flight w"
  show ?thesis
  proof (cases "gatewayProc w")
    case None
    with RestartBegins sf show ?thesis
      by (simp add: restartGateway_begin_def ensure_single_flight)
  next
    case (Some p)
    with RestartBegins sf show ?thesis
      by (simp add: restartGateway_begin_def single_flight_def)
  qed
next
  case RestartResumes
  assume "single_flight w"
  then have "single_flight (w\<lparr>gatewayProc := None\<rparr>)" by (simp add: single_flight_def)
  with RestartResumes show ?thesis
    by (simp add: restartGateway_resume_def ensure_single_flight)
next
  case (FsChanges f)
  assume "single_flight w"
  with FsChanges show ?thesis by (simp add: single_flight_def)
qed

lemma run_single_flight:
  "single_flight w \<Longrightarrow> single_flight (snd (run cfg fault w evs))"
  by (induction evs arbitrary: w) (simp_all add: step_single_flight)

lemma single_flight_length: "single_flight w \<Longrightarrow> length (in_flight w) \<le> 1"
proof -
  assume "single_flight w"
  then have "length (map fst (in_flight w)) \<le> 1"
    unfolding single_flight_def by (simp split: option.splits)
  then show ?thesis by simp
qed


lemma mkdirSync_ok:
  "\<not> fault s \<Longrightarrow> \<forall>q \<in> set (prefixes p). \<not> is_file (fs q) \<Longrightarrow>
   mkdirSync fault s fs p = Inr (\<lambda>q. if prefix q p \<and> fs q = None then Some Dir else fs q)"
  by (simp add: mkdirSync_def)

lemma mkdir_result_no_file:
  "\<not> is_file (fs q) \<Longrightarrow> \<not> is_file ((\<lambda>q. if prefix q p \<and> fs q = None then Some Dir else fs q) q)"
  by simp

lemma mkdir_result_exists:
  "existsSync fs q \<Longrightarrow> existsSync (\<lambda>q. if prefix q p \<and> fs q = None then Some Dir else fs q) q"
  by (simp add: existsSync_def)

lemma startGateway_ok:
  assumes "gatewayProc w = None" "isConfigured cfg (files w)" "can_start cfg fault (files w)"
  shows "fst (startGateway cfg fault w) = None"
    and "gatewayProc (snd (startGateway cfg fault w)) = Some (length (spawned w))"
    and "spawned (snd (startGateway cfg fault w)) = spawned w @ [length (spawned w)]"
    and "isConfigured cfg (files (snd (startGateway cfg fault w)))"
proof -
  define fs1 where "fs1 = (\<lambda>q. if prefix q (STATE_DIR cfg) \<and> files w q = None then Some Dir else files w q)"
  define fs2 where "fs2 = (\<lambda>q. if prefix q (WORKSPACE_DIR cfg) \<and> fs1 q = None then Some Dir else fs1 q)"
  from assms(3) have m1: "mkdirSync fault StartMkdirState (files w) (STATE_DIR cfg) = Inr fs1"
    unfolding fs1_def by (intro mkdirSync_ok) (simp_all add: can_start_def)
  from assms(3) have "\<forall>q \<in> set (prefixes (WORKSPACE_DIR cfg)). \<not> is_file (fs1 q)"
    by (simp add: can_start_def fs1_def)
  with assms(3) have m2: "mkdirSync fault StartMkdirWorkspace fs1 (WORKSPACE_DIR cfg) = Inr fs2"
    unfolding fs2_def by (intro mkdirSync_ok) (simp_all add: can_start_def)
  from assms(3) have sp: "\<not> fault StartSpawn" by (simp add: can_start_def)
  have sg: "startGateway cfg fault w =
      (None, w\<lparr>files := fs2, gatewayProc := Some (length (spawned w)),
                spawned := spawned w @ [length (spawned w)]\<rparr>)"
    using assms(1,2) sp by (simp add: startGateway_def m1 m2)
  show "fst (startGateway cfg fault w) = None" by (simp add: sg)
  show "gatewayProc (snd (startGateway cfg fault w)) = Some (length (spawned w))" by (simp add: sg)
  show "spawned (snd (startGateway cfg fault w)) = spawned w @ [length (spawned w)]" by (simp add: sg)
  have "isConfigured cfg fs2"
  proof (rule isConfigured_mono [OF _ assms(2)])
    fix p assume "existsSync (files w) p"
    then show "existsSync fs2 p" by (simp add: existsSync_def fs1_def fs2_def)
  qed
  then show "isConfigured cfg (files (snd (startGateway cfg fault w)))" by (simp add: sg)
qed

text \<open>The world while the attempt \<open>a\<close> is under way and the children are \<open>sp\<close>.\<close>

lemma first_call:
  assumes "absent w" "isConfigured cfg (files w)" "can_start cfg fault (files w)"
  shows "fst (ensureGatewayRunning cfg fault w) = Awaiting (attempts_created w)"
    and "gatewayStarting (snd (ensureGatewayRunning cfg fault w)) = Some (attempts_created w)"
    and "in_flight (snd (ensureGatewayRunning cfg fault w)) = [(attempts_created w, None)]"
    and "spawned (snd (ensureGatewayRunning cfg fault w)) = spawned w @ [length (spawned w)]"
    and "isConfigured cfg (files (snd (ensureGatewayRunning cfg fault w)))"
proof -
  from assms(1) have a: "gatewayProc w = None" "gatewayStarting w = None" "in_flight w = []"
    by (simp_all add: absent_def)
  note sg = startGateway_ok [OF a(1) assms(2,3)]
  note fr = startGateway_frame [of cfg fault w]
  show "fst (ensureGatewayRunning cfg fault w) = Awaiting (attempts_created w)"
    using a assms(2) fr by (simp add: ensureGatewayRunning_def Let_def)
  show "gatewayStarting (snd (ensureGatewayRunning cfg fault w)) = Some (attempts_created w)"
    using a assms(2) fr by (simp add: ensureGatewayRunning_def Let_def)
  show "in_flight (snd (ensureGatewayRunning cfg fault w)) = [(attempts_created w, None)]"
    using a assms(2) fr sg(1) by (simp add: ensureGatewayRunning_def Let_def)
  show "spawned (snd (ensureGatewayRunning cfg fault w)) = spawned w @ [length (spawned w)]"
    using a assms(2) sg(3) by (simp add: ensureGatewayRunning_def Let_def)
  show "isConfigured cfg (files (snd (ensureGatewayRunning cfg fault w)))"
    using a assms(2) sg(4) by (simp add: ensureGatewayRunning_def Let_def)
qed

lemma later_event:
  assumes "gatewayStarting w = Some a" "in_flight w = [(a, None)]" "spawned w = sp"
      "isConfigured cfg (files w)" "call_or_child ev"
  shows "gatewayStarting (snd (step cfg fault w ev)) = Some a \<and>
         in_flight (snd (step cfg fault w ev)) = [(a, None)] \<and>
         spawned (snd (step cfg fault w ev)) = sp \<and>
         isConfigured cfg (files (snd (step cfg fault w ev))) \<and>
         sees_attempt a (fst (step cfg fault w ev))"
  using assms
  by (cases ev) (auto simp: ensureGatewayRunning_def child_gone_def)

lemma later_events:
  assumes "gatewayStarting w = Some a" "in_flight w = [(a, None)]" "spawned w = sp"
      "isConfigured cfg (files w)" "list_all call_or_child evs"
  shows "gatewayStarting (snd (run cfg fault w evs)) = Some a \<and>
         in_flight (snd (run cfg fault w evs)) = [(a, None)] \<and>
         spawned (snd (run cfg fault w evs)) = sp \<and>
         list_all (sees_attempt a) (fst (run cfg fault w evs))"
  using assms
proof (induction evs arbitrary: w)
  case Nil
  then show ?case by simp
next
  case (Cons ev evs)
  from Cons.prems have ev: "call_or_child ev" and evs: "list_all call_or_child evs" by simp_all
  note st = later_event [OF Cons.prems(1-4) ev, of fault]
  from st have "gatewayStarting (snd (step cfg fault w ev)) = Some a"
    "in_flight (snd (step cfg fault w ev)) = [(a, None)]"
    "spawned (snd (step cfg fault w ev)) = sp"
    "isConfigured cfg (files (snd (step cfg fault w ev)))"
    by blast+
  from Cons.IH [OF this evs] st show ?case by simp
qed

lemma quiet_event:
  assumes "absent w" "call_or_child ev" "ev \<noteq> CallEnsure"
  shows "absent (snd (step cfg fault w ev)) \<and> files (snd (step cfg fault w ev)) = files w \<and>
         spawned (snd (step cfg fault w ev)) = spawned w \<and>
         attempts_created (snd (step cfg fault w ev)) = attempts_created w \<and>
         fst (step cfg fault w ev) = Silent"
  using assms by (cases ev) (auto simp: absent_def child_gone_def)

lemma startup_events:
  assumes "absent w" "isConfigured cfg (files w)" "can_start cfg fault (files w)"
      "list_all call_or_child evs" "CallEnsure \<in> set evs"
  shows "gatewayStarting (snd (run cfg fault w evs)) = Some (attempts_created w) \<and>
         in_flight (snd (run cfg fault w evs)) = [(attempts_created w, None)] \<and>
         spawned (snd (run cfg fault w evs)) = spawned w @ [length (spawned w)] \<and>
         list_all (sees_attempt (attempts_created w)) (fst (run cfg fault w evs))"
  using assms
proof (induction evs arbitrary: w)
  case Nil
  then show ?case by simp
next
  case (Cons ev evs)
  from Cons.prems have ev: "call_or_child ev" and evs: "list_all call_or_child evs" by simp_all
  show ?case
  proof (cases "ev = CallEnsure")
    case True
    note fc = first_call [OF Cons.prems(1-3)]
    from later_events [OF fc(2) fc(3) fc(4) fc(5) evs, of fault] fc(1) True
    show ?thesis by simp
  next
    case False
    note q = quiet_event [OF Cons.prems(1) ev False, of cfg fault]
    from False Cons.prems(5) have "CallEnsure \<in> set evs" by auto
    with q Cons.prems(2,3) evs
    have "gatewayStarting (snd (run cfg fault (snd (step cfg fault w ev)) evs)) =
            Some (attempts_created (snd (step cfg fault w ev))) \<and>
         in_flight (snd (run cfg fault (snd (step cfg fault w ev)) evs)) =
            [(attempts_created (snd (step cfg fault w ev)), None)] \<and>
         spawned (snd (run cfg fault (snd (step cfg fault w ev)) evs)) =
            spawned (snd (step cfg fault w ev)) @ [length (spawned (snd (step cfg fault w ev)))] \<and>
         list_all (sees_attempt (attempts_created (snd (step cfg fault w ev))))
            (fst (run cfg fault (snd (step cfg fault w ev)) evs))"
      by (intro Cons.IH) simp_all
    with q show ?thesis by simp
  qed
qed

lemma run_append:
  "snd (run cfg fault w (evs @ evs')) = snd (run cfg fault (snd (run cfg fault w evs)) evs')"
  by (induction evs arbitrary: w) simp_all


text \<open>
  Claim C1, as the code has it. While the wrapper is configured and \<open>startGateway\<close> can
  make its directories and spawn: for calls of \<open>ensureGatewayRunning\<close> that begin while
  the backend is absent and come before the attempt settles, at least one of them,
  mixed in any order with \<open>exit\<close> and \<open>error\<close> events of children, exactly one child is
  spawned; exactly one attempt is in flight, the one \<open>gatewayStarting\<close> holds; every caller
  returns success or is suspended on that attempt, none starts another. Whatever
  happens afterwards, at most one attempt is in flight.
\<close>

theorem single_flight_startup:
  "absent w \<Longrightarrow> isConfigured cfg (files w) \<Longrightarrow> can_start cfg fault (files w) \<Longrightarrow>
   list_all call_or_child evs \<Longrightarrow> CallEnsure \<in> set evs \<Longrightarrow>
   spawned (snd (run cfg fault w evs)) = spawned w @ [length (spawned w)] \<and>
   in_flight (snd (run cfg fault w evs)) = [(attempts_created w, None)] \<and>
   gatewayStarting (snd (run cfg fault w evs)) = Some (attempts_created w) \<and>
   list_all (sees_attempt (attempts_created w)) (fst (run cfg fault w evs)) \<and>
   (\<forall>evs'. length (in_flight (snd (run cfg fault w (evs @ evs')))) \<le> 1)"
proof -
  assume a: "absent w" and c: "isConfigured cfg (files w)" and s: "can_start cfg fault (files w)"
    and e: "list_all call_or_child evs" "CallEnsure \<in> set evs"
  from a have "single_flight w" by (simp add: absent_def single_flight_def)
  then have "length (in_flight (snd (run cfg fault w (evs @ evs')))) \<le> 1" for evs'
    by (intro single_flight_length run_single_flight)
  with startup_events [OF a c s e] show ?thesis by blast
qed

lemma readme_configured: "isConfigured readme_cfg configured_volume"
  by (simp add: isConfigured_def configPath_def existsSync_def readme_cfg_def configured_volume_def)

lemma readme_can_start: "can_start readme_cfg no_fault configured_volume"
  by (simp add: can_start_def no_fault_def readme_cfg_def configured_volume_def)

lemma fresh_absent: "absent (fresh_world fs)"
  by (simp add: absent_def fresh_world_def)

theorem single_flight_startup_witness:
  "spawned (snd (run readme_cfg no_fault (fresh_world configured_volume)
      [ChildExit 0, CallEnsure, CallEnsure, ChildExit 0, CallEnsure])) = [0] \<and>
   in_flight (snd (run readme_cfg no_fault (fresh_world configured_volume)
      [ChildExit 0, CallEnsure, CallEnsure, ChildExit 0, CallEnsure])) = [(0, None)]"
proof -
  let ?evs = "[ChildExit 0, CallEnsure, CallEnsure, ChildExit 0, CallEnsure]"
  have c: "isConfigured readme_cfg (files (fresh_world configured_volume))"
    by (simp add: fresh_world_def readme_configured)
  have s: "can_start readme_cfg no_fault (files (fresh_world configured_volume))"
    by (simp add: fresh_world_def readme_can_start)
  have e: "list_all call_or_child ?evs" "CallEnsure \<in> set ?evs" by simp_all
  have z: "spawned (fresh_world configured_volume) = []" "attempts_created (fresh_world configured_volume) = 0"
    by (simp_all add: fresh_world_def)
  from single_flight_startup [OF fresh_absent c s e]
  have "spawned (snd (run readme_cfg no_fault (fresh_world configured_volume) ?evs)) =
          spawned (fresh_world configured_volume) @ [length (spawned (fresh_world configured_volume))]"
       "in_flight (snd (run readme_cfg no_fault (fresh_world configured_volume) ?evs)) =
          [(attempts_created (fresh_world configured_volume), None)]"
    by blast+
  then show ?thesis unfolding z by simp
qed

lemma readme_first_call:
  "fst (ensureGatewayRunning readme_cfg no_fault (fresh_world configured_volume)) = Awaiting 0"
  "gatewayStarting (snd (ensureGatewayRunning readme_cfg no_fault (fresh_world configured_volume))) = Some 0"
  "in_flight (snd (ensureGatewayRunning readme_cfg no_fault (fresh_world configured_volume))) = [(0, None)]"
  "spawned (snd (ensureGatewayRunning readme_cfg no_fault (fresh_world configured_volume))) = [0]"
  "isConfigured readme_cfg (files (snd (ensureGatewayRunning readme_cfg no_fault (fresh_world configured_volume))))"
  "gatewayProc (snd (ensureGatewayRunning readme_cfg no_fault (fresh_world configured_volume))) = Some 0"
proof -
  have c: "isConfigured readme_cfg (files (fresh_world configured_volume))"
    by (simp add: fresh_world_def readme_configured)
  have s: "can_start readme_cfg no_fault (files (fresh_world configured_volume))"
    by (simp add: fresh_world_def readme_can_start)
  have z: "spawned (fresh_world configured_volume) = []" "attempts_created (fresh_world configured_volume) = 0"
    "gatewayProc (fresh_world configured_volume) = None" "gatewayStarting (fresh_world configured_volume) = None"
    by (simp_all add: fresh_world_def)
  note fc = first_call [OF fresh_absent c s]
  show "fst (ensureGatewayRunning readme_cfg no_fault (fresh_world configured_volume)) = Awaiting 0"
    using fc(1) z by simp
  show "gatewayStarting (snd (ensureGatewayRunning readme_cfg no_fault (fresh_world configured_volume))) = Some 0"
    using fc(2) z by simp
  show "in_flight (snd (ensureGatewayRunning readme_cfg no_fault (fresh_world configured_volume))) = [(0, None)]"
    using fc(3) z by simp
  show "spawned (snd (ensureGatewayRunning readme_cfg no_fault (fresh_world configured_volume))) = [0]"
    using fc(4) z by simp
  show "isConfigured readme_cfg (files (snd (ensureGatewayRunning readme_cfg no_fault (fresh_world configured_volume))))"
    by (rule fc(5))
  show "gatewayProc (snd (ensureGatewayRunning readme_cfg no_fault (fresh_world configured_volume))) = Some 0"
    using startGateway_ok(2) [OF z(3) c s] c z
    by (simp add: ensureGatewayRunning_def Let_def)
qed

text \<open>
  Claim C1 as stated fails twice. On an empty volume one call while the backend is
  absent spawns no child. On a configured volume the second of two calls in a row
  returns \<open>{ ok: true }\<close> at once, because the handle is already set, although the attempt
  of the first call is still in flight: it does not await that attempt.
\<close>

theorem single_flight_counterexample:
  "absent (fresh_world Map.empty) \<and>
   spawned (snd (run readme_cfg no_fault (fresh_world Map.empty) [CallEnsure])) = [] \<and>
   absent (fresh_world configured_volume) \<and>
   fst (run readme_cfg no_fault (fresh_world configured_volume) [CallEnsure, CallEnsure]) =
     [Call_obs (Awaiting 0), Call_obs (Returned Ok_true)] \<and>
   in_flight (snd (run readme_cfg no_fault (fresh_world configured_volume) [CallEnsure, CallEnsure])) =
     [(0, None)]"
proof -
  have u: "\<not> isConfigured readme_cfg (files (fresh_world Map.empty))"
    by (simp add: isConfigured_def configPath_def existsSync_def readme_cfg_def fresh_world_def)
  then have 1: "spawned (snd (run readme_cfg no_fault (fresh_world Map.empty) [CallEnsure])) = []"
    by (simp add: ensureGatewayRunning_def) (simp add: fresh_world_def)
  let ?w1 = "snd (ensureGatewayRunning readme_cfg no_fault (fresh_world configured_volume))"
  have 2: "ensureGatewayRunning readme_cfg no_fault ?w1 = (Returned Ok_true, ?w1)"
    using readme_first_call(5,6) by (simp add: ensureGatewayRunning_def [of _ _ ?w1])
  have 3: "fst (run readme_cfg no_fault (fresh_world configured_volume) [CallEnsure, CallEnsure]) =
     [Call_obs (Awaiting 0), Call_obs (Returned Ok_true)]"
    by (simp add: readme_first_call(1) 2)
  have 4: "in_flight (snd (run readme_cfg no_fault (fresh_world configured_volume) [CallEnsure, CallEnsure])) =
     [(0, None)]"
    by (simp add: readme_first_call(3) 2)
  from 1 3 4 fresh_absent show ?thesis by blast
qed


text \<open>
  Claim C4, as the code has it. While the wrapper is configured: with a handle and no
  attempt in flight, \<open>ensureGatewayRunning\<close> returns success at once and changes nothing;
  with no handle and an attempt in flight it is suspended on that attempt, changes
  nothing, and ends as the attempt does: \<open>{ ok: true }\<close> exactly when the attempt is
  fulfilled, the attempt's error exactly when it is rejected.
\<close>

theorem ensure_state_contract:
  "isConfigured cfg (files w) \<Longrightarrow>
   (\<forall>p. gatewayProc w = Some p \<and> gatewayStarting w = None
      \<longrightarrow> ensureGatewayRunning cfg fault w = (Returned Ok_true, w)) \<and>
   (\<forall>a. gatewayProc w = None \<and> gatewayStarting w = Some a
      \<longrightarrow> ensureGatewayRunning cfg fault w = (Awaiting a, w)) \<and>
   (\<forall>settled. (ensure_resume settled = Resolved Ok_true \<longleftrightarrow> settled = Resolved ()) \<and>
      (\<forall>e. ensure_resume settled = Rejected e \<longleftrightarrow> settled = Rejected e))"
  by (auto simp: ensureGatewayRunning_def ensure_resume_def split: promise.splits)

theorem ensure_state_contract_witness:
  "ensureGatewayRunning readme_cfg no_fault ((fresh_world configured_volume)\<lparr>gatewayProc := Some 0\<rparr>)
     = (Returned Ok_true, (fresh_world configured_volume)\<lparr>gatewayProc := Some 0\<rparr>) \<and>
   ensureGatewayRunning readme_cfg no_fault
       ((fresh_world configured_volume)\<lparr>gatewayStarting := Some 0, in_flight := [(0, None)]\<rparr>)
     = (Awaiting 0, (fresh_world configured_volume)\<lparr>gatewayStarting := Some 0, in_flight := [(0, None)]\<rparr>)"
proof -
  let ?run = "(fresh_world configured_volume)\<lparr>gatewayProc := Some 0\<rparr>"
  let ?start = "(fresh_world configured_volume)\<lparr>gatewayStarting := Some 0, in_flight := [(0, None)]\<rparr>"
  have c1: "isConfigured readme_cfg (files ?run)"
    by (simp add: fresh_world_def readme_configured)
  have c2: "isConfigured readme_cfg (files ?start)"
    by (simp add: fresh_world_def readme_configured)
  have r: "gatewayProc ?run = Some 0 \<and> gatewayStarting ?run = None"
    by (simp add: fresh_world_def)
  have s: "gatewayProc ?start = None \<and> gatewayStarting ?start = Some 0"
    by (simp add: fresh_world_def)
  have "ensureGatewayRunning readme_cfg no_fault ?run = (Returned Ok_true, ?run)"
    using r by (rule ensure_state_contract [OF c1, THEN conjunct1, THEN spec, THEN mp])
  moreover have "ensureGatewayRunning readme_cfg no_fault ?start = (Awaiting 0, ?start)"
    using s by (rule ensure_state_contract [OF c2, THEN conjunct2, THEN conjunct1, THEN spec, THEN mp])
  ultimately show ?thesis by blast
qed

text \<open>
  Claim C4 as stated fails twice. With a handle but no configuration file the call
  returns the failure \<open>not configured\<close>, not success. With an attempt in flight and the
  handle already set (the state the first call leaves) the next call returns success at
  once instead of awaiting the attempt, and that attempt then fails when nothing
  listens.
\<close>

theorem ensure_state_counterexample:
  "gatewayProc (running_world\<lparr>files := Map.empty\<rparr>) = Some 0 \<and>
   ensureGatewayRunning readme_cfg no_fault (running_world\<lparr>files := Map.empty\<rparr>)
     = (Returned (Ok_false ''not configured''), running_world\<lparr>files := Map.empty\<rparr>) \<and>
   gatewayStarting (snd (ensureGatewayRunning readme_cfg no_fault (fresh_world configured_volume))) = Some 0 \<and>
   fst (ensureGatewayRunning readme_cfg no_fault
          (snd (ensureGatewayRunning readme_cfg no_fault (fresh_world configured_volume))))
     = Returned Ok_true \<and>
   fst (settle_attempt 0 dead_net 0
          (snd (ensureGatewayRunning readme_cfg no_fault (fresh_world configured_volume))))
     = Rejected ''Error: Gateway did not become ready in time''"
proof -
  let ?w1 = "snd (ensureGatewayRunning readme_cfg no_fault (fresh_world configured_volume))"
  have u: "\<not> isConfigured readme_cfg (files (running_world\<lparr>files := Map.empty\<rparr>))"
    by (simp add: isConfigured_def configPath_def existsSync_def readme_cfg_def)
  then have 1: "ensureGatewayRunning readme_cfg no_fault (running_world\<lparr>files := Map.empty\<rparr>)
     = (Returned (Ok_false ''not configured''), running_world\<lparr>files := Map.empty\<rparr>)"
    by (simp add: ensureGatewayRunning_def)
  have 2: "fst (ensureGatewayRunning readme_cfg no_fault ?w1) = Returned Ok_true"
    using readme_first_call(5,6) by (simp add: ensureGatewayRunning_def [of _ _ ?w1])
  have d: "\<not> fst (waitForGatewayReady dead_net (Some 20000) 0)"
    by (simp add: waitForGatewayReady_def timeoutMs_of_def waitLoop.simps dead_net_def)
  have 3: "fst (settle_attempt 0 dead_net 0 ?w1) = Rejected ''Error: Gateway did not become ready in time''"
    using d by (simp add: settle_attempt_def readme_first_call(3) attempt_result_def)
  have 0: "gatewayProc (running_world\<lparr>files := Map.empty\<rparr>) = Some 0"
    by (simp add: running_world_def)
  from 0 1 2 3 readme_first_call(2) show ?thesis by blast
qed

section \<open>Properties of the extraction\<close>

lemma str_includes_iff: "str_includes s t \<longleftrightarrow> (\<exists>a b. s = a @ t @ b)"
proof (induction s)
  case Nil
  show ?case by auto
next
  case (Cons c s)
  show ?case
  proof
    assume "str_includes (c # s) t"
    then consider "prefix t (c # s)" | "str_includes s t" by auto
    then show "\<exists>a b. c # s = a @ t @ b"
    proof cases
      case 1
      then obtain b where "c # s = t @ b" by (auto simp: prefix_def)
      then have "c # s = [] @ t @ b" by simp
      then show ?thesis by blast
    next
      case 2
      with Cons.IH obtain a b where "s = a @ t @ b" by blast
      then have "c # s = (c # a) @ t @ b" by simp
      then show ?thesis by blast
    qed
  next
    assume "\<exists>a b. c # s = a @ t @ b"
    then obtain a b where ab: "c # s = a @ t @ b" by blast
    show "str_includes (c # s) t"
    proof (cases a)
      case Nil
      with ab have "prefix t (c # s)" by (simp add: prefix_def)
      then show ?thesis by simp
    next
      case (Cons x a')
      with ab have "s = a' @ t @ b" by simp
      with Cons.IH have "str_includes s t" by blast
      then show ?thesis by simp
    qed
  qed
qed

lemma split_path_nonempty: "split_path p \<noteq> []"
  by (induction p) (auto split: list.splits)

lemma split_path_component:
  "(x \<in> set (split_path p) \<longrightarrow> (\<exists>a b. p = a @ x @ b)) \<and> prefix (hd (split_path p)) p"
proof (induction p arbitrary: x)
  case Nil
  show ?case by simp
next
  case (Cons c cs)
  show ?case
  proof (cases "c = CHR ''/''")
    case True
    have "\<exists>a b. c # cs = a @ x @ b" if "x \<in> set (split_path cs)"
    proof -
      from Cons.IH that obtain a b where "cs = a @ x @ b" by blast
      then have "c # cs = (c # a) @ x @ b" by simp
      then show ?thesis by blast
    qed
    moreover have "\<exists>a b. c # cs = a @ [] @ b"
    proof -
      have "c # cs = [] @ [] @ (c # cs)" by simp
      then show ?thesis by blast
    qed
    ultimately show ?thesis using True by auto
  next
    case False
    obtain y ys where sp: "split_path cs = y # ys"
      using split_path_nonempty [of cs] by (cases "split_path cs") auto
    from Cons.IH [of y] sp have py: "prefix y cs" by simp
    then obtain b where b: "cs = y @ b" by (auto simp: prefix_def)
    have 1: "\<exists>a b. c # cs = a @ x @ b" if "x \<in> set ((c # y) # ys)"
    proof (cases "x = c # y")
      case True
      with b have "c # cs = [] @ x @ b" by simp
      then show ?thesis by blast
    next
      case False
      with that sp have "x \<in> set (split_path cs)" by simp
      with Cons.IH obtain a b' where "cs = a @ x @ b'" by blast
      then have "c # cs = (c # a) @ x @ b'" by simp
      then show ?thesis by blast
    qed
    from py have 2: "prefix (c # y) (c # cs)" by simp
    from False sp 1 2 show ?thesis by simp
  qed
qed

lemma filter_rejects_dotdot:
  "''..'' \<in> set (split_path p) \<Longrightarrow> \<not> import_filter p"
  using split_path_component [of "''..''" p]
  by (simp add: import_filter_def str_includes_iff)

lemma resolve_below:
  "''..'' \<notin> set cs \<Longrightarrow> prefix base (resolve base cs)"
proof (induction cs arbitrary: base)
  case Nil
  show ?case by simp
next
  case (Cons c cs)
  then have "prefix (base @ [c]) (resolve (base @ [c]) cs)" by simp
  then have "prefix base (resolve (base @ [c]) cs)" by (rule append_prefixD)
  with Cons show ?case by auto
qed

lemma accepted_target_below:
  "import_filter p \<Longrightarrow> prefix cwd (entry_target cwd p)"
  unfolding entry_target_def
  by (rule resolve_below) (auto dest: filter_rejects_dotdot)

lemma write_entry_outside:
  assumes "prefix cwd target" "\<forall>q. prefix q cwd \<longrightarrow> fs q \<noteq> None" "\<not> prefix cwd q"
  shows "write_entry fs target n q = fs q"
proof -
  from assms(1,3) have "q \<noteq> target" by auto
  moreover have "\<not> (prefix q target \<and> fs q = None)"
  proof
    assume a: "prefix q target \<and> fs q = None"
    with assms(1) have "prefix q cwd \<or> prefix cwd q"
      using prefix_same_cases [of q target cwd] by blast
    with assms(2,3) a show False by blast
  qed
  ultimately show ?thesis by (auto simp: write_entry_def)
qed

lemma write_entry_keeps:
  "fs q \<noteq> None \<Longrightarrow> write_entry fs target n q \<noteq> None"
  by (simp add: write_entry_def)

lemma tar_x_outside:
  assumes "\<forall>q. prefix q cwd \<longrightarrow> fs q \<noteq> None" "\<not> prefix cwd q"
  shows "tar_x cwd import_filter entries fs q = fs q"
  using assms
proof (induction entries arbitrary: fs)
  case Nil
  show ?case by simp
next
  case (Cons e es)
  show ?case
  proof (cases "import_filter (entry_path e)")
    case False
    with Cons show ?thesis by simp
  next
    case True
    let ?fs = "write_entry fs (entry_target cwd (entry_path e)) (entry_node e)"
    have t: "prefix cwd (entry_target cwd (entry_path e))"
      using True by (rule accepted_target_below)
    have "\<forall>q. prefix q cwd \<longrightarrow> ?fs q \<noteq> None"
      using Cons.prems(1) by (simp add: write_entry_keeps)
    then have "tar_x cwd import_filter es ?fs q = ?fs q"
      using Cons.prems(2) by (rule Cons.IH)
    also have "?fs q = fs q"
      using t Cons.prems by (rule write_entry_outside)
    finally show ?thesis using True by simp
  qed
qed

lemma tar_x_drops_dotdot:
  "tar_x cwd import_filter entries fs =
   tar_x cwd import_filter (filter (\<lambda>e. ''..'' \<notin> set (split_path (entry_path e))) entries) fs"
  by (induction entries arbitrary: fs) (auto dest: filter_rejects_dotdot)

text \<open>
  Claim C2. For every archive, the filter rejects every entry whose path has a \<open>..\<close>
  component, so such entries contribute nothing to the extraction; and what the
  extraction writes lies in the extraction directory of the staging area: every path
  outside it is as it was before. An entry \<open>../../etc/passwd\<close> creates no file.
\<close>

theorem import_rejects_traversal:
  "(\<forall>e \<in> set entries. ''..'' \<in> set (split_path (entry_path e)) \<longrightarrow> \<not> import_filter (entry_path e)) \<and>
   tar_x cwd import_filter entries fs =
     tar_x cwd import_filter (filter (\<lambda>e. ''..'' \<notin> set (split_path (entry_path e))) entries) fs \<and>
   ((\<forall>q. prefix q cwd \<longrightarrow> fs q \<noteq> None)
      \<longrightarrow> (\<forall>q. \<not> prefix cwd q \<longrightarrow> tar_x cwd import_filter entries fs q = fs q))"
  using tar_x_drops_dotdot [of cwd entries fs]
  by (auto dest: filter_rejects_dotdot simp: tar_x_outside)


lemma prefix_3: "prefix q [a, b, c] \<longleftrightarrow> q = [] \<or> q = [a] \<or> q = [a, b] \<or> q = [a, b, c]"
  by (cases q; cases "tl q"; cases "tl (tl q)"; cases "tl (tl (tl q))") auto

theorem import_rejects_traversal_witness:
  "\<not> import_filter ''../../etc/passwd'' \<and>
   tar_x (extract_dir readme_env) import_filter traversal_archive staged_volume [''etc'', ''passwd''] = None \<and>
   tar_x (extract_dir readme_env) import_filter traversal_archive staged_volume [''tmp'', ''etc'', ''passwd''] = None"
proof -
  let ?cwd = "[''tmp'', ''openclaw-import-00c0ffee'', ''extracted'']"
  have cwd: "extract_dir readme_env = ?cwd"
    by (simp add: extract_dir_def staging_dir_def readme_env_def)
  note t = import_rejects_traversal [of traversal_archive ?cwd staged_volume]
  have d: "''..'' \<in> set (split_path ''../../etc/passwd'')" by simp
  have m: "\<lparr>entry_path = ''../../etc/passwd'', entry_node = File ''root::0:0:'' 420\<rparr> \<in> set traversal_archive"
    by (simp add: traversal_archive_def)
  from t have "\<forall>e \<in> set traversal_archive.
      ''..'' \<in> set (split_path (entry_path e)) \<longrightarrow> \<not> import_filter (entry_path e)"
    by (rule conjunct1)
  from this m have
    "''..'' \<in> set (split_path (entry_path \<lparr>entry_path = ''../../etc/passwd'', entry_node = File ''root::0:0:'' 420\<rparr>))
     \<longrightarrow> \<not> import_filter (entry_path \<lparr>entry_path = ''../../etc/passwd'', entry_node = File ''root::0:0:'' 420\<rparr>)"
    by (rule bspec)
  with d have 1: "\<not> import_filter ''../../etc/passwd''" by simp
  have ex: "\<forall>q. prefix q ?cwd \<longrightarrow> staged_volume q \<noteq> None"
    by (simp add: prefix_3 staged_volume_def)
  from t have "(\<forall>q. prefix q ?cwd \<longrightarrow> staged_volume q \<noteq> None)
      \<longrightarrow> (\<forall>q. \<not> prefix ?cwd q \<longrightarrow> tar_x ?cwd import_filter traversal_archive staged_volume q = staged_volume q)"
    by (rule conjunct2 [THEN conjunct2])
  with ex have out: "\<And>q. \<not> prefix ?cwd q \<Longrightarrow>
      tar_x ?cwd import_filter traversal_archive staged_volume q = staged_volume q"
    by blast
  have 2: "tar_x ?cwd import_filter traversal_archive staged_volume [''etc'', ''passwd''] = None"
    by (subst out) (simp_all add: staged_volume_def)
  have 3: "tar_x ?cwd import_filter traversal_archive staged_volume [''tmp'', ''etc'', ''passwd''] = None"
    by (subst out) (simp_all add: staged_volume_def)
  from 1 2 3 show ?thesis unfolding cwd by blast
qed

section \<open>Properties of the import\<close>

lemma same_tree_refl: "same_tree dir fs fs"
  by (simp add: same_tree_def)

lemma same_tree_trans: "same_tree dir a b \<Longrightarrow> same_tree dir b c \<Longrightarrow> same_tree dir a c"
  by (simp add: same_tree_def)

lemma apart_below: "apart dir a \<Longrightarrow> apart dir (a @ x)"
proof -
  assume a: "apart dir a"
  have "\<not> prefix dir (a @ x)"
  proof
    assume "prefix dir (a @ x)"
    then have "prefix dir a \<or> prefix a dir"
      using prefix_same_cases [of dir "a @ x" a] by simp
    with a show False by (simp add: apart_def)
  qed
  moreover have "\<not> prefix (a @ x) dir"
  proof
    assume "prefix (a @ x) dir"
    then have "prefix a dir" by (rule append_prefixD)
    with a show False by (simp add: apart_def)
  qed
  ultimately show ?thesis by (simp add: apart_def)
qed

lemma apart_not_under: "apart dir a \<Longrightarrow> prefix dir q \<Longrightarrow> \<not> prefix a q"
  using prefix_same_cases [of dir q a] by (auto simp: apart_def)

lemma mkdir_same_tree:
  "mkdirSync fault s fs t = Inr fs' \<Longrightarrow> \<not> prefix dir t \<Longrightarrow> same_tree dir fs fs'"
  by (auto simp: mkdirSync_def same_tree_def split: if_splits dest: prefix_order.trans)

lemma write_same_tree:
  "writeFileSync fault s fs p d m = Inr fs' \<Longrightarrow> \<not> prefix dir p \<Longrightarrow> same_tree dir fs fs'"
  by (auto simp: writeFileSync_def same_tree_def split: if_splits option.splits node.splits)



lemma rm_same_tree:
  "rmSync fault s fs p = Inr fs' \<Longrightarrow> apart dir p \<Longrightarrow> same_tree dir fs fs'"
  by (auto simp: rmSync_def same_tree_def split: if_splits dest: apart_not_under)

lemma write_entry_same_tree:
  assumes "prefix cwd target" "apart dir cwd"
  shows "same_tree dir fs (write_entry fs target n)"
  unfolding same_tree_def
proof (intro allI impI)
  fix q assume q: "prefix dir q"
  with assms(2) have nq: "\<not> prefix cwd q" by (rule apart_not_under)
  with assms(1) have "q \<noteq> target" by auto
  moreover have "\<not> prefix q target"
  proof
    assume "prefix q target"
    with assms(1) have "prefix q cwd \<or> prefix cwd q"
      using prefix_same_cases [of q target cwd] by blast
    with nq have "prefix q cwd" by simp
    with q have "prefix dir cwd" by (rule prefix_order.trans)
    with assms(2) show False by (simp add: apart_def)
  qed
  ultimately show "write_entry fs target n q = fs q" by (simp add: write_entry_def)
qed

lemma tar_x_same_tree:
  "apart dir cwd \<Longrightarrow> same_tree dir fs (tar_x cwd import_filter entries fs)"
proof (induction entries arbitrary: fs)
  case Nil
  show ?case by (simp add: same_tree_refl)
next
  case (Cons e es)
  show ?case
  proof (cases "import_filter (entry_path e)")
    case False
    with Cons show ?thesis by simp
  next
    case True
    let ?fs = "write_entry fs (entry_target cwd (entry_path e)) (entry_node e)"
    from True have "prefix cwd (entry_target cwd (entry_path e))" by (rule accepted_target_below)
    then have "same_tree dir fs ?fs" using Cons.prems by (rule write_entry_same_tree)
    moreover have "same_tree dir ?fs (tar_x cwd import_filter es ?fs)"
      using Cons.prems by (rule Cons.IH)
    ultimately have "same_tree dir fs (tar_x cwd import_filter es ?fs)" by (rule same_tree_trans)
    with True show ?thesis by simp
  qed
qed

lemma extract_same_tree:
  "extract_archive fault env fs = Inr fs' \<Longrightarrow> apart dir (extract_dir env) \<Longrightarrow> same_tree dir fs fs'"
  by (auto simp: extract_archive_def tar_x_same_tree split: if_splits option.splits node.splits)

text \<open>Actions.\<close>

lemma keeps_treeD: "keeps_tree dir a \<Longrightarrow> same_tree dir (files w) (files (snd (a w)))"
  by (simp add: keeps_tree_def)

lemma only_filesD: "only_files a \<Longrightarrow> (snd (a w))\<lparr>files := files w\<rparr> = w"
  by (simp add: only_files_def)

lemma fs_do_keeps:
  "(\<And>fs fs'. f fs = Inr fs' \<Longrightarrow> same_tree dir fs fs') \<Longrightarrow> keeps_tree dir (fs_do f)"
  by (auto simp: keeps_tree_def fs_do_def same_tree_refl split: sum.splits)

lemma fs_do_only_files: "only_files (fs_do f)"
  by (auto simp: only_files_def fs_do_def split: sum.splits)


lemma seq_keeps: "\<forall>a \<in> set as. keeps_tree dir a \<Longrightarrow> keeps_tree dir (seq as)"
proof (induction as)
  case Nil
  show ?case by (simp add: keeps_tree_def same_tree_refl)
next
  case (Cons a as)
  then have a: "keeps_tree dir a" and as: "keeps_tree dir (seq as)" by simp_all
  show ?case
    unfolding keeps_tree_def
  proof
    fix w
    from a have 1: "same_tree dir (files w) (files (snd (a w)))" by (simp add: keeps_tree_def)
    from as have 2: "same_tree dir (files (snd (a w))) (files (snd (seq as (snd (a w)))))"
      by (simp add: keeps_tree_def)
    from 1 2 have 3: "same_tree dir (files w) (files (snd (seq as (snd (a w)))))"
      by (rule same_tree_trans)
    from 1 3 show "same_tree dir (files w) (files (snd (seq (a # as) w)))"
      by (cases "fst (a w)") simp_all
  qed
qed

lemma seq_only_files: "\<forall>a \<in> set as. only_files a \<Longrightarrow> only_files (seq as)"
proof (induction as)
  case Nil
  show ?case by (simp add: only_files_def)
next
  case (Cons a as)
  then have a: "only_files a" and as: "only_files (seq as)" by simp_all
  show ?case
    unfolding only_files_def
  proof
    fix w
    from a have 1: "(snd (a w))\<lparr>files := files w\<rparr> = w" by (simp add: only_files_def)
    from as have "(snd (seq as (snd (a w))))\<lparr>files := files (snd (a w))\<rparr> = snd (a w)"
      by (simp add: only_files_def)
    then have "((snd (seq as (snd (a w))))\<lparr>files := files (snd (a w))\<rparr>)\<lparr>files := files w\<rparr> =
        (snd (a w))\<lparr>files := files w\<rparr>"
      by simp
    with 1 have 2: "(snd (seq as (snd (a w))))\<lparr>files := files w\<rparr> = w" by simp
    from 1 2 show "(snd (seq (a # as) w))\<lparr>files := files w\<rparr> = w"
      by (cases "fst (a w)") simp_all
  qed
qed

lemma stage_upload_keeps:
  "apart dir (staging_dir env) \<Longrightarrow> keeps_tree dir (stage_upload fault env buffer)"
proof -
  assume a: "apart dir (staging_dir env)"
  then have t: "apart dir (tar_path env)" and x: "apart dir (extract_dir env)"
    by (simp_all add: tar_path_def extract_dir_def apart_below)
  show ?thesis
    unfolding stage_upload_def
  proof (rule seq_keeps, simp, intro conjI)
    show "keeps_tree dir (fs_do (\<lambda>fs. writeFileSync fault ImportWriteTar fs (tar_path env) buffer 438))"
      using t by (intro fs_do_keeps write_same_tree) (auto simp: apart_def)
    show "keeps_tree dir (fs_do (\<lambda>fs. mkdirSync fault ImportMkdirExtract fs (extract_dir env)))"
      using x by (intro fs_do_keeps mkdir_same_tree) (auto simp: apart_def)
    show "keeps_tree dir (fs_do (extract_archive fault env))"
      using x by (intro fs_do_keeps extract_same_tree)
  qed
qed

lemma stage_upload_only_files: "only_files (stage_upload fault env buffer)"
  unfolding stage_upload_def by (rule seq_only_files) (simp add: fs_do_only_files)

lemma cleanup_same_tree:
  "apart dir (staging_dir env) \<Longrightarrow> same_tree dir (files w) (files (cleanup fault env w))"
  by (auto simp: cleanup_def same_tree_refl split: sum.splits dest: rm_same_tree)

lemma cleanup_only_files: "(cleanup fault env w)\<lparr>files := fs\<rparr> = w\<lparr>files := fs\<rparr>"
  by (simp add: cleanup_def split: sum.splits)


lemma fs_do_no_hang: "fst (fs_do f w) \<noteq> Hangs"
  by (simp add: fs_do_def split: sum.splits)

lemma seq_no_hang: "\<forall>a \<in> set as. \<forall>w. fst (a w) \<noteq> Hangs \<Longrightarrow> fst (seq as w) \<noteq> Hangs"
proof (induction as arbitrary: w)
  case Nil
  show ?case by simp
next
  case (Cons a as)
  then show ?case by (cases "fst (a w)") simp_all
qed

lemma stage_upload_no_hang: "fst (stage_upload fault env buffer w) \<noteq> Hangs"
  unfolding stage_upload_def by (rule seq_no_hang) (simp add: fs_do_no_hang)

text \<open>The handler when the restore is not reached.\<close>

lemma import_not_restored:
  assumes mk: "mkdirSync fault ImportMkdirStaging (files w) (staging_dir env) = Inr fs1"
    and nr: "fst (stage_upload fault env buffer (w\<lparr>files := fs1\<rparr>)) = Continue \<Longrightarrow>
             \<not> fault ImportReaddir \<Longrightarrow>
             \<not> has_state_marker env (files (snd (stage_upload fault env buffer (w\<lparr>files := fs1\<rparr>))))"
  shows "\<exists>r. import_handler cfg fault env (Some buffer) w =
            (Some r, cleanup fault env (snd (stage_upload fault env buffer (w\<lparr>files := fs1\<rparr>)))) \<and>
            \<not> resp_ok r \<and>
            (fst (stage_upload fault env buffer (w\<lparr>files := fs1\<rparr>)) = Continue \<and> \<not> fault ImportReaddir
               \<longrightarrow> r = invalid_backup)"
proof (cases "fst (stage_upload fault env buffer (w\<lparr>files := fs1\<rparr>))")
  case Continue
  show ?thesis
  proof (cases "fault ImportReaddir")
    case True
    with Continue mk show ?thesis
      by (simp add: import_handler_def import_body_def Let_def import_failed_def)
  next
    case False
    with Continue nr
    have "\<not> has_state_marker env (files (snd (stage_upload fault env buffer (w\<lparr>files := fs1\<rparr>))))"
      by simp
    with Continue False mk show ?thesis
      by (simp add: import_handler_def import_body_def Let_def invalid_backup_def)
  qed
next
  case (Throws e)
  with mk show ?thesis
    by (simp add: import_handler_def import_body_def Let_def import_failed_def)
next
  case Hangs
  with stage_upload_no_hang show ?thesis by blast
qed

lemma import_not_restored_frame:
  fixes buffer :: string
  assumes mk: "mkdirSync fault ImportMkdirStaging (files w) (staging_dir env) = Inr fs1"
  defines "w' \<equiv> cleanup fault env (snd (stage_upload fault env buffer (w\<lparr>files := fs1\<rparr>)))"
  shows "w'\<lparr>files := files w\<rparr> = w"
    and "apart dir (staging_dir env) \<Longrightarrow> same_tree dir (files w) (files w')"
proof -
  let ?w0 = "w\<lparr>files := fs1\<rparr>"
  let ?w1 = "snd (stage_upload fault env buffer ?w0)"
  have "?w1\<lparr>files := files ?w0\<rparr> = ?w0"
    using stage_upload_only_files by (rule only_filesD)
  then have "(?w1\<lparr>files := files ?w0\<rparr>)\<lparr>files := files w\<rparr> = ?w0\<lparr>files := files w\<rparr>" by simp
  then have "?w1\<lparr>files := files w\<rparr> = w" by simp
  then show "w'\<lparr>files := files w\<rparr> = w"
    unfolding w'_def by (simp add: cleanup_only_files)
  assume a: "apart dir (staging_dir env)"
  then have "\<not> prefix dir (staging_dir env)" by (simp add: apart_def)
  with mk have 1: "same_tree dir (files w) fs1" by (rule mkdir_same_tree)
  from a have "keeps_tree dir (stage_upload fault env buffer)" by (rule stage_upload_keeps)
  then have "same_tree dir (files ?w0) (files ?w1)" by (rule keeps_treeD)
  then have 2: "same_tree dir fs1 (files ?w1)" by simp
  from a have 3: "same_tree dir (files ?w1) (files w')"
    unfolding w'_def by (rule cleanup_same_tree)
  from 1 2 3 show "same_tree dir (files w) (files w')"
    by (blast intro: same_tree_trans)
qed

text \<open>
  Claim C3. When the extraction has finished and the top level of the extraction
  directory holds none of \<open>.openclaw\<close>, \<open>.clawdbot\<close>, \<open>.moltbot\<close>, the import answers with a
  failure (\<open>Invalid backup\<close>, status 400, unless listing the directory threw), the state
  of the wrapper apart from the files is as before (the gateway is not stopped, no
  signal is sent), and every directory tree apart from the staging directory, the live
  state directory among them, holds exactly what it held.
\<close>

theorem import_invalid_leaves_state:
  "extracted_files fault env buffer w = Some fsx \<Longrightarrow> \<not> has_state_marker env fsx \<Longrightarrow>
   (\<exists>r. fst (import_handler cfg fault env (Some buffer) w) = Some r \<and> \<not> resp_ok r \<and>
        (\<not> fault ImportReaddir \<longrightarrow> r = invalid_backup)) \<and>
   (snd (import_handler cfg fault env (Some buffer) w))\<lparr>files := files w\<rparr> = w \<and>
   (\<forall>dir. apart dir (staging_dir env) \<longrightarrow>
      same_tree dir (files w) (files (snd (import_handler cfg fault env (Some buffer) w))))"
proof -
  assume x: "extracted_files fault env buffer w = Some fsx" and m: "\<not> has_state_marker env fsx"
  from x obtain fs1 where mk: "mkdirSync fault ImportMkdirStaging (files w) (staging_dir env) = Inr fs1"
    by (auto simp: extracted_files_def split: sum.splits)
  let ?st = "stage_upload fault env buffer (w\<lparr>files := fs1\<rparr>)"
  from x mk have c: "fst ?st = Continue" and f: "files (snd ?st) = fsx"
    by (auto simp: extracted_files_def split: outcome.splits)
  from m f have "\<not> has_state_marker env (files (snd ?st))" by simp
  with import_not_restored [OF mk, of buffer cfg] c obtain r where
    r: "import_handler cfg fault env (Some buffer) w = (Some r, cleanup fault env (snd ?st))"
       "\<not> resp_ok r" "\<not> fault ImportReaddir \<longrightarrow> r = invalid_backup"
    by blast
  note fr = import_not_restored_frame [OF mk, where buffer = buffer]
  from r fr show ?thesis by simp
qed


lemma notes_extracted:
  "extracted_files no_fault readme_env ''notes'' running_world \<noteq> None"
  by (simp add: extracted_files_def mkdirSync_def stage_upload_def fs_do_def writeFileSync_def
      extract_archive_def readme_env_def staging_dir_def tar_path_def extract_dir_def no_fault_def
      running_world_def fresh_world_def configured_volume_def)

lemma notes_no_marker:
  "\<not> has_state_marker readme_env (the (extracted_files no_fault readme_env ''notes'' running_world))"
  by (simp add: extracted_files_def mkdirSync_def stage_upload_def fs_do_def writeFileSync_def
      extract_archive_def readme_env_def staging_dir_def tar_path_def extract_dir_def no_fault_def
      running_world_def fresh_world_def configured_volume_def has_state_marker_def extracted_has_def
      existsSync_def notes_archive_def import_filter_def entry_target_def write_entry_def)

lemma readme_state_apart: "apart [''data'', ''.openclaw''] (staging_dir readme_env)"
  by (simp add: apart_def staging_dir_def readme_env_def)

theorem import_invalid_leaves_state_witness:
  "fst (import_handler readme_cfg no_fault readme_env (Some ''notes'') running_world) = Some invalid_backup \<and>
   gatewayProc (snd (import_handler readme_cfg no_fault readme_env (Some ''notes'') running_world)) = Some 0 \<and>
   signals (snd (import_handler readme_cfg no_fault readme_env (Some ''notes'') running_world)) = [] \<and>
   files (snd (import_handler readme_cfg no_fault readme_env (Some ''notes'') running_world))
     [''data'', ''.openclaw'', ''openclaw.json''] = Some (File ''{}'' 420)"
proof -
  let ?h = "import_handler readme_cfg no_fault readme_env (Some ''notes'') running_world"
  from notes_extracted
  have x: "extracted_files no_fault readme_env ''notes'' running_world =
      Some (the (extracted_files no_fault readme_env ''notes'' running_world))"
    by simp
  note t = import_invalid_leaves_state [OF x notes_no_marker, of readme_cfg]
  from t obtain r where r: "fst ?h = Some r" "\<not> no_fault ImportReaddir \<longrightarrow> r = invalid_backup"
    by blast
  then have 1: "fst ?h = Some invalid_backup" by (simp add: no_fault_def)
  from t have u: "(snd ?h)\<lparr>files := files running_world\<rparr> = running_world" by blast
  have 2: "gatewayProc (snd ?h) = Some 0"
  proof -
    have "gatewayProc (snd ?h) = gatewayProc ((snd ?h)\<lparr>files := files running_world\<rparr>)" by simp
    also have "\<dots> = gatewayProc running_world" by (simp only: u)
    finally show ?thesis by (simp add: running_world_def)
  qed
  have 3: "signals (snd ?h) = []"
  proof -
    have "signals (snd ?h) = signals ((snd ?h)\<lparr>files := files running_world\<rparr>)" by simp
    also have "\<dots> = signals running_world" by (simp only: u)
    finally show ?thesis by (simp add: running_world_def fresh_world_def)
  qed
  from t readme_state_apart
  have "same_tree [''data'', ''.openclaw''] (files running_world) (files (snd ?h))" by blast
  then have "files (snd ?h) [''data'', ''.openclaw'', ''openclaw.json''] =
      files running_world [''data'', ''.openclaw'', ''openclaw.json'']"
    by (simp add: same_tree_def)
  then have 4: "files (snd ?h) [''data'', ''.openclaw'', ''openclaw.json''] = Some (File ''{}'' 420)"
    by (simp add: running_world_def fresh_world_def configured_volume_def)
  from 1 2 3 4 show ?thesis by blast
qed

section \<open>Properties of the restore\<close>

















lemma seq_Cons_continue: "fst (a w) = Continue \<Longrightarrow> seq (a # as) w = seq as (snd (a w))"
  by simp

lemma seq_Cons_throws: "fst (a w) = Throws e \<Longrightarrow> seq (a # as) w = (Throws e, snd (a w))"
  by simp










lemma same_tree_below: "same_tree dir fs fs' \<Longrightarrow> same_tree (dir @ x) fs fs'"
  by (auto simp: same_tree_def dest: append_prefixD)






























end
